theory Spec2Isabelle
  imports Main "HOL-Library.Word"
begin

unbundle bit_operations_syntax

section \<open>The type table (enum.c)\<close>

text \<open>
  The tags of \<^verbatim>\<open>type_t\<close>, in the order in which the initialisers of enum.c name them
  (index 0 is \<^verbatim>\<open>TYPE_NONE\<close>, index 18 is \<^verbatim>\<open>TYPE_TUPLE\<close>).
\<close>

datatype type_t =
    TYPE_NONE | TYPE_BOOL | TYPE_BYTE | TYPE_INT8 | TYPE_INT16 | TYPE_INT32 | TYPE_INT64
  | TYPE_INT128 | TYPE_INT256 | TYPE_FLOAT | TYPE_DOUBLE | TYPE_STRING | TYPE_ACCOUNT
  | TYPE_STRUCT | TYPE_MAP | TYPE_OBJECT | TYPE_CURSOR | TYPE_VOID | TYPE_TUPLE

text \<open>The integer value of a tag, as the C enum numbers it.\<close>

fun type_index :: "type_t \<Rightarrow> nat" where
  "type_index TYPE_NONE = 0"
| "type_index TYPE_BOOL = 1"
| "type_index TYPE_BYTE = 2"
| "type_index TYPE_INT8 = 3"
| "type_index TYPE_INT16 = 4"
| "type_index TYPE_INT32 = 5"
| "type_index TYPE_INT64 = 6"
| "type_index TYPE_INT128 = 7"
| "type_index TYPE_INT256 = 8"
| "type_index TYPE_FLOAT = 9"
| "type_index TYPE_DOUBLE = 10"
| "type_index TYPE_STRING = 11"
| "type_index TYPE_ACCOUNT = 12"
| "type_index TYPE_STRUCT = 13"
| "type_index TYPE_MAP = 14"
| "type_index TYPE_OBJECT = 15"
| "type_index TYPE_CURSOR = 16"
| "type_index TYPE_VOID = 17"
| "type_index TYPE_TUPLE = 18"

definition TYPE_MAX :: nat where
  "TYPE_MAX = 19"

definition type_names :: "string list" where
  "type_names =
    [''undefined'', ''bool'', ''byte'', ''int8'', ''int16'', ''int32'', ''int64'', ''int128'',
     ''int256'', ''float'', ''double'', ''string'', ''account'', ''struct'', ''map'', ''object'',
     ''cursor'', ''void'', ''tuple'']"

definition I32 :: int where "I32 = 4"
definition I64 :: int where "I64 = 8"
definition F32 :: int where "F32 = 4"
definition F64 :: int where "F64 = 8"
definition ADDR :: int where "ADDR = 4"

definition type_sizes :: "int list" where
  "type_sizes =
    [0, I32, I32, I32, I32, I32, I64, ADDR, ADDR, F32, F64, ADDR, ADDR, ADDR, I64, ADDR, ADDR,
     0, ADDR]"

text \<open>
  The host sizes are C \<^verbatim>\<open>sizeof\<close> values. The fixed-width integer types have the sizes
  their names give; \<^verbatim>\<open>sizeof(bool)\<close>, \<^verbatim>\<open>sizeof(float)\<close> and \<^verbatim>\<open>sizeof(double)\<close> are
  taken as 1, 4 and 8, as on the usual 32- and 64-bit ABIs.
\<close>

definition type_bytes :: "int list" where
  "type_bytes = [0, 1, 1, 1, 2, 4, 8, 4, 4, 4, 8, 4, 4, 4, 4, 4, 4, 0, 0]"

text \<open>
  The three lookups index the tables by the tag's value. An index outside the table is
  \<open>None\<close>: the program has no value to give there.
\<close>

definition type_lookup :: "'a list \<Rightarrow> nat \<Rightarrow> 'a option" where
  "type_lookup tbl i = (if i < TYPE_MAX \<and> i < length tbl then Some (tbl ! i) else None)"

definition TYPE_NAME :: "type_t \<Rightarrow> string option" where
  "TYPE_NAME t = type_lookup type_names (type_index t)"

definition TYPE_SIZE :: "type_t \<Rightarrow> int option" where
  "TYPE_SIZE t = type_lookup type_sizes (type_index t)"

definition TYPE_HOST_SIZE :: "type_t \<Rightarrow> int option" where
  "TYPE_HOST_SIZE t = type_lookup type_bytes (type_index t)"

section \<open>Function modifiers (ast\_func.h)\<close>

datatype modifier_t = MOD_GLOBAL | MOD_LOCAL | MOD_SHARED | MOD_TRANSFER | MOD_READONLY

text \<open>The enumerators' values, as ast\_func.h writes them.\<close>

fun modifier_val :: "modifier_t \<Rightarrow> 32 word" where
  "modifier_val MOD_GLOBAL = 0x00"
| "modifier_val MOD_LOCAL = 0x01"
| "modifier_val MOD_SHARED = 0x02"
| "modifier_val MOD_TRANSFER = 0x04"
| "modifier_val MOD_READONLY = 0x08"

text \<open>
  Modelled from the spec: the field \<^verbatim>\<open>mod\<close> of \<^verbatim>\<open>ast_func_t\<close> is one \<^verbatim>\<open>modifier_t\<close> value
  that stands for a set of modifiers (``Modifiers form a bit-set''); the code that fills and
  tests it is not in src. A set is represented by the bitwise OR of its members' values
  and a member is tested by masking with its value.
\<close>

fun mod_or :: "modifier_t list \<Rightarrow> 32 word" where
  "mod_or [] = 0"
| "mod_or (m # ms) = modifier_val m OR mod_or ms"

definition mod_test :: "32 word \<Rightarrow> modifier_t \<Rightarrow> bool" where
  "mod_test v m = (v AND modifier_val m \<noteq> 0)"

section \<open>The syntax tree that lowering reads\<close>

text \<open>
  The headers that declare metadata, identifiers, expressions and statements are not in
  src; the types below have the fields that trans\_stmt.c and gen\_stmt.c read, under the
  names the code uses.
\<close>

type_synonym errpos_t = nat

record meta_t =
  mtype :: type_t
  elem_cnt :: int
  arr_dim :: nat

definition is_map_meta :: "meta_t \<Rightarrow> bool" where
  "is_map_meta m = (mtype m = TYPE_MAP)"

definition is_tuple_type :: "meta_t \<Rightarrow> bool" where
  "is_tuple_type m = (mtype m = TYPE_TUPLE)"

definition is_array_meta :: "meta_t \<Rightarrow> bool" where
  "is_array_meta m = (0 < arr_dim m)"

record ast_id_t =
  name :: string
  id_meta :: meta_t
  idx :: int
  is_return :: bool

definition is_return_id :: "ast_id_t \<Rightarrow> bool" where
  "is_return_id i = is_return i"

text \<open>
  An expression carries its resolved identifier (\<^verbatim>\<open>exp->id\<close>, possibly \<^verbatim>\<open>NULL\<close>), its
  metadata and the member of the union that its kind selects. \<open>EXP_GLOBAL\<close>,
  \<open>EXP_LOCAL\<close> and \<open>EXP_STACK\<close> are the address forms that expression lowering leaves.
\<close>

datatype ast_exp =
    EXP_LIT (exp_id: "ast_id_t option") (exp_meta: meta_t) int
  | EXP_ID (exp_id: "ast_id_t option") (exp_meta: meta_t)
  | EXP_OP (exp_id: "ast_id_t option") (exp_meta: meta_t) string "ast_exp list"
  | EXP_ACCESS (exp_id: "ast_id_t option") (exp_meta: meta_t) ast_exp ast_exp
  | EXP_CALL (exp_id: "ast_id_t option") (exp_meta: meta_t) "ast_exp list"
  | EXP_TUPLE (exp_id: "ast_id_t option") (exp_meta: meta_t) "ast_exp list"
  | EXP_GLOBAL (exp_id: "ast_id_t option") (exp_meta: meta_t) "string option"
  | EXP_LOCAL (exp_id: "ast_id_t option") (exp_meta: meta_t) int
  | EXP_STACK (exp_id: "ast_id_t option") (exp_meta: meta_t) int int int type_t

fun is_call_exp :: "ast_exp \<Rightarrow> bool" where
  "is_call_exp (EXP_CALL i m args) = True"
| "is_call_exp e = False"

fun is_tuple_exp :: "ast_exp \<Rightarrow> bool" where
  "is_tuple_exp (EXP_TUPLE i m exps) = True"
| "is_tuple_exp e = False"

datatype loop_kind_t = LOOP_FOR | LOOP_ARRAY

text \<open>
  A statement: its label block (\<^verbatim>\<open>stmt->label_bb\<close>, a block id or \<^verbatim>\<open>NULL\<close>), its source
  position, and the union member of its kind. A block of statements (\<^verbatim>\<open>ast_blk_t\<close>) is the
  list of its statements; a pointer that the code tests against \<^verbatim>\<open>NULL\<close> is an option.
  \<open>STMT_GOTO\<close> holds \<^verbatim>\<open>jump_id->u_lab.stmt->label_bb\<close>, the label block of its target.
\<close>

datatype ast_stmt =
    STMT_NULL (label_bb: "nat option") (pos: errpos_t)
  | STMT_EXP (label_bb: "nat option") (pos: errpos_t) ast_exp
  | STMT_ASSIGN (label_bb: "nat option") (pos: errpos_t) ast_exp ast_exp
  | STMT_IF (label_bb: "nat option") (pos: errpos_t) ast_exp "ast_stmt list option"
      "ast_stmt list" "ast_stmt list option"
  | STMT_LOOP (label_bb: "nat option") (pos: errpos_t) loop_kind_t "ast_stmt option"
      "ast_stmt list"
  | STMT_SWITCH (label_bb: "nat option") (pos: errpos_t) "ast_stmt list" bool
  | STMT_CASE (label_bb: "nat option") (pos: errpos_t) "ast_exp option" "ast_stmt list"
  | STMT_RETURN (label_bb: "nat option") (pos: errpos_t) "ast_exp option"
  | STMT_CONTINUE (label_bb: "nat option") (pos: errpos_t)
  | STMT_BREAK (label_bb: "nat option") (pos: errpos_t) "ast_exp option"
  | STMT_GOTO (label_bb: "nat option") (pos: errpos_t) "nat option"
  | STMT_DDL (label_bb: "nat option") (pos: errpos_t)
  | STMT_BLK (label_bb: "nat option") (pos: errpos_t) "ast_stmt list option"

text \<open>
  Modelled from the spec: \<^verbatim>\<open>stmt_new_assign\<close> (ast\_stmt.c is not in src) makes a fresh
  assignment statement of the two expressions at the given position; a fresh statement
  has no label.
\<close>

definition stmt_new_assign :: "ast_exp \<Rightarrow> ast_exp \<Rightarrow> errpos_t \<Rightarrow> ast_stmt" where
  "stmt_new_assign var_exp val_exp p = STMT_ASSIGN None p var_exp val_exp"

section \<open>Fatal and user errors\<close>

text \<open>
  A failed \<^verbatim>\<open>ASSERT\<close> (named by the asserted condition), a dereferenced \<^verbatim>\<open>NULL\<close> pointer, a
  pointer to no block, an array read outside its size and a read of a union member that
  the statement's or expression's kind does not select all end the compilation: each is a
  value of \<open>fatal\<close>, and a function that can hit one returns \<open>fatal + result\<close>.
\<close>

datatype fatal = ASSERT string | NULL_POINTER | BAD_POINTER | OUT_OF_RANGE | WRONG_KIND

fun and_then :: "fatal + 'a \<Rightarrow> ('a \<Rightarrow> fatal + 'b) \<Rightarrow> fatal + 'b" where
  "and_then (Inl e) f = Inl e"
| "and_then (Inr x) f = f x"

text \<open>
  Modelled from the spec: \<^verbatim>\<open>array_get_exp\<close> and \<^verbatim>\<open>array_get_stmt\<close> (array.h is not in src)
  read the element at an index; outside the array there is no element and the read is
  fatal (\<open>OUT_OF_RANGE\<close>).
\<close>

definition array_get :: "'a list \<Rightarrow> nat \<Rightarrow> fatal + 'a" where
  "array_get xs i = (if i < length xs then Inr (xs ! i) else Inl OUT_OF_RANGE)"

text \<open>
  Modelled from the spec: \<^verbatim>\<open>ERROR(ec, pos)\<close> (error.h is not in src) reports a user error,
  an (error-kind, source-position) pair, to the diagnostics layer and returns: compilation
  continues. The reported errors are a list in the translation state.
\<close>

datatype ec_t = ERROR_NOT_SUPPORTED

section \<open>Emission of statements (gen\_stmt.c)\<close>

text \<open>
  The WebAssembly builder is a third-party library; an expression it builds is a term of
  the constructors that gen\_stmt.c calls, with the arguments the code passes. A
  \<^verbatim>\<open>BinaryenExpressionRef\<close> that may be \<^verbatim>\<open>NULL\<close> is an option.
\<close>

datatype BinaryenType =
  BinaryenTypeNone | BinaryenTypeInt32 | BinaryenTypeInt64 | BinaryenTypeFloat32
  | BinaryenTypeFloat64

datatype BinaryenOp = BinaryenAddInt32 | BinaryenOtherOp string

datatype BinaryenExpression =
    BinaryenConst int
  | BinaryenGetLocal int BinaryenType
  | BinaryenSetLocal int BinaryenExpression
  | BinaryenGetGlobal string BinaryenType
  | BinaryenSetGlobal string BinaryenExpression
  | BinaryenBinary BinaryenOp BinaryenExpression BinaryenExpression
  | BinaryenLoad int int int BinaryenType BinaryenExpression
  | BinaryenStore int int int "BinaryenExpression option" BinaryenExpression BinaryenType
  | BinaryenCall string "BinaryenExpression list" BinaryenType
  | BinaryenReturn "BinaryenExpression option"
  | BinaryenOther string "BinaryenExpression list"

record gen_t =
  gen_is_lval :: bool

text \<open>
  gen\_exp.c and the helpers that map metadata to WebAssembly types are not in src: the
  emission of statements takes them as parameters. \<open>exp_gen\<close> reads the generator state
  and the expression it is given (\<^verbatim>\<open>NULL\<close> for a return without argument).
\<close>

record gen_ext =
  exp_gen :: "gen_t \<Rightarrow> ast_exp option \<Rightarrow> BinaryenExpression option"
  meta_gen :: "meta_t \<Rightarrow> BinaryenType"
  type_gen :: "type_t \<Rightarrow> BinaryenType"

definition i32_gen :: "gen_t \<Rightarrow> int \<Rightarrow> BinaryenExpression" where
  "i32_gen gen v = BinaryenConst v"

definition type_size :: "type_t \<Rightarrow> fatal + int" where
  "type_size t = (case TYPE_SIZE t of None \<Rightarrow> Inl OUT_OF_RANGE | Some n \<Rightarrow> Inr n)"

text \<open>
  \<^verbatim>\<open>stmt_gen_assign\<close>. The result is the emitted expression (\<open>None\<close> for \<^verbatim>\<open>NULL\<close>: nothing is
  emitted) and the generator state. The tests follow the order of the code: the map guard,
  the value, then the address forms global, local and stack, the return identifier, and
  last the array element. The offset parameter of \<^verbatim>\<open>BinaryenStore\<close> is a \<^verbatim>\<open>uint32_t\<close>: the
  offset of a stack reference is converted to it, modulo \<open>2 ^ 32\<close>.
\<close>

definition stmt_gen_assign ::
  "gen_ext \<Rightarrow> gen_t \<Rightarrow> ast_stmt \<Rightarrow> fatal + (BinaryenExpression option \<times> gen_t)" where
  "stmt_gen_assign G gen stmt =
    (case stmt of
       STMT_ASSIGN lb p l_exp r_exp \<Rightarrow>
         if (case exp_id l_exp of None \<Rightarrow> False | Some i \<Rightarrow> is_map_meta (id_meta i))
         then Inr (None, gen)
         else
           (case exp_gen G gen (Some r_exp) of
              None \<Rightarrow> Inr (None, gen)
            | Some v \<Rightarrow>
                (case l_exp of
                   EXP_GLOBAL _ _ gname \<Rightarrow>
                     (case gname of
                        None \<Rightarrow> Inl (ASSERT ''l_exp->u_glob.name != NULL'')
                      | Some n \<Rightarrow> Inr (Some (BinaryenSetGlobal n v), gen))
                 | EXP_LOCAL _ _ lidx \<Rightarrow>
                     if lidx < 0 then Inl (ASSERT ''l_exp->u_local.idx >= 0'')
                     else Inr (Some (BinaryenSetLocal lidx v), gen)
                 | EXP_STACK _ _ base addr offset ty \<Rightarrow>
                     if base < 0 then Inl (ASSERT ''l_exp->u_stk.base >= 0'')
                     else if addr < 0 then Inl (ASSERT ''l_exp->u_stk.addr >= 0'')
                     else
                       and_then (type_size ty) (\<lambda>bytes.
                         Inr (Some (BinaryenStore bytes (offset mod 2 ^ 32) 0
                                (Some (if 0 < addr
                                       then BinaryenBinary BinaryenAddInt32
                                              (BinaryenGetLocal base BinaryenTypeInt32)
                                              (i32_gen gen addr)
                                       else BinaryenGetLocal base BinaryenTypeInt32))
                                v (type_gen G ty)), gen))
                 | _ \<Rightarrow>
                     (case exp_id l_exp of
                        None \<Rightarrow> Inl (ASSERT ''id != NULL'')
                      | Some i \<Rightarrow>
                          if is_return_id i then
                            if idx i < 0 then Inl (ASSERT ''id->idx >= 0'')
                            else
                              and_then (type_size (mtype (exp_meta l_exp))) (\<lambda>bytes.
                                Inr (Some (BinaryenStore bytes 0 0
                                       (Some (BinaryenGetLocal (idx i) BinaryenTypeInt32))
                                       v (meta_gen G (exp_meta l_exp))), gen))
                          else if \<not> is_array_meta (id_meta i) then
                            Inl (ASSERT ''is_array_meta(&id->meta)'')
                          else
                            and_then (type_size (mtype (exp_meta l_exp))) (\<lambda>bytes.
                              Inr (Some (BinaryenStore bytes 0 0
                                     (exp_gen G (gen\<lparr>gen_is_lval := True\<rparr>) (Some l_exp))
                                     v (meta_gen G (exp_meta l_exp))),
                                   gen\<lparr>gen_is_lval := False\<rparr>)))))
     | _ \<Rightarrow> Inl WRONG_KIND)"

definition stmt_gen_return ::
  "gen_ext \<Rightarrow> gen_t \<Rightarrow> ast_stmt \<Rightarrow> fatal + (BinaryenExpression option \<times> gen_t)" where
  "stmt_gen_return G gen stmt =
    (case stmt of
       STMT_RETURN lb p arg_exp \<Rightarrow> Inr (Some (BinaryenReturn (exp_gen G gen arg_exp)), gen)
     | _ \<Rightarrow> Inl WRONG_KIND)"

definition stmt_gen_ddl ::
  "gen_ext \<Rightarrow> gen_t \<Rightarrow> ast_stmt \<Rightarrow> fatal + (BinaryenExpression option \<times> gen_t)" where
  "stmt_gen_ddl G gen stmt = Inr (None, gen)"

definition stmt_gen ::
  "gen_ext \<Rightarrow> gen_t \<Rightarrow> ast_stmt \<Rightarrow> fatal + (BinaryenExpression option \<times> gen_t)" where
  "stmt_gen G gen stmt =
    (case stmt of
       STMT_EXP lb p e \<Rightarrow> Inr (exp_gen G gen (Some e), gen)
     | STMT_ASSIGN lb p l_exp r_exp \<Rightarrow> stmt_gen_assign G gen stmt
     | STMT_RETURN lb p arg_exp \<Rightarrow> stmt_gen_return G gen stmt
     | STMT_DDL lb p \<Rightarrow> stmt_gen_ddl G gen stmt
     | _ \<Rightarrow> Inl (ASSERT ''invalid statement''))"

section \<open>Basic blocks and the function under construction\<close>

text \<open>
  Blocks refer to each other through branch targets, and the translation context, the
  function's block vector and the branches all point at the same blocks. The blocks
  therefore live in a store, \<open>blocks\<close>, and a pointer to a block is its index there; a
  \<^verbatim>\<open>NULL\<close> pointer is \<open>None\<close>. A branch is its guard (\<open>None\<close> when unconditional) and its
  target.
\<close>

type_synonym ir_br_t = "ast_exp option \<times> nat"

record ir_bb_t =
  stmts :: "ast_stmt list"
  brs :: "ir_br_t list"
  pgbacks :: "ast_stmt list"

text \<open>The fields of \<^verbatim>\<open>struct ir_fn_s\<close> (ir\_fn.h) that statement lowering touches.\<close>

record ir_fn_t =
  bbs :: "nat list"
  entry_bb :: nat
  exit_bb :: nat

record trans_t =
  fn :: ir_fn_t
  bb :: "nat option"
  cont_bb :: "nat option"
  break_bb :: "nat option"
  is_lval :: bool
  blocks :: "ir_bb_t list"
  errors :: "(ec_t \<times> errpos_t) list"

text \<open>
  Modelled from the spec: the block primitives of ir\_bb.c and ir\_fn.c, which are not in
  src. \<^verbatim>\<open>bb_new\<close> makes an empty block with a fresh id; \<^verbatim>\<open>bb_add_stmt\<close> appends a statement
  and \<^verbatim>\<open>bb_add_branch\<close> a branch to a block (a branch to a null target is an assertion
  failure); \<^verbatim>\<open>fn_add_basic_blk\<close> appends a block to the function's vector and is a no-op
  for a block that is already there. Each dereferences the block it is given, so a
  \<^verbatim>\<open>NULL\<close> block is fatal.
\<close>

definition bb_new :: "trans_t \<Rightarrow> nat \<times> trans_t" where
  "bb_new t =
    (length (blocks t),
     t\<lparr>blocks := blocks t @ [\<lparr>stmts = [], brs = [], pgbacks = []\<rparr>]\<rparr>)"

definition bb_modify ::
  "trans_t \<Rightarrow> nat option \<Rightarrow> (ir_bb_t \<Rightarrow> ir_bb_t) \<Rightarrow> fatal + trans_t" where
  "bb_modify t b f =
    (case b of
       None \<Rightarrow> Inl NULL_POINTER
     | Some i \<Rightarrow>
         if i < length (blocks t) then Inr (t\<lparr>blocks := (blocks t)[i := f (blocks t ! i)]\<rparr>)
         else Inl BAD_POINTER)"

definition bb_add_stmt :: "trans_t \<Rightarrow> nat option \<Rightarrow> ast_stmt \<Rightarrow> fatal + trans_t" where
  "bb_add_stmt t b stmt = bb_modify t b (\<lambda>blk. blk\<lparr>stmts := stmts blk @ [stmt]\<rparr>)"

definition bb_add_branch ::
  "trans_t \<Rightarrow> nat option \<Rightarrow> ast_exp option \<Rightarrow> nat option \<Rightarrow> fatal + trans_t" where
  "bb_add_branch t b cond_exp br_bb =
    (case br_bb of
       None \<Rightarrow> Inl (ASSERT ''br_bb != NULL'')
     | Some target \<Rightarrow> bb_modify t b (\<lambda>blk. blk\<lparr>brs := brs blk @ [(cond_exp, target)]\<rparr>))"

definition bb_add_piggyback ::
  "trans_t \<Rightarrow> nat option \<Rightarrow> ast_stmt list \<Rightarrow> fatal + trans_t" where
  "bb_add_piggyback t b pgs =
    (if pgs = [] then Inr t else bb_modify t b (\<lambda>blk. blk\<lparr>pgbacks := pgbacks blk @ pgs\<rparr>))"

definition has_piggyback :: "trans_t \<Rightarrow> nat option \<Rightarrow> fatal + bool" where
  "has_piggyback t b =
    (case b of
       None \<Rightarrow> Inl NULL_POINTER
     | Some i \<Rightarrow>
         if i < length (blocks t) then Inr (pgbacks (blocks t ! i) \<noteq> []) else Inl BAD_POINTER)"

definition fn_add_basic_blk :: "trans_t \<Rightarrow> nat option \<Rightarrow> fatal + trans_t" where
  "fn_add_basic_blk t b =
    (case b of
       None \<Rightarrow> Inl NULL_POINTER
     | Some i \<Rightarrow>
         if i \<in> set (bbs (fn t)) then Inr t
         else Inr (t\<lparr>fn := (fn t)\<lparr>bbs := bbs (fn t) @ [i]\<rparr>\<rparr>))"

text \<open>
  Modelled from the spec: \<^verbatim>\<open>ERROR\<close> appends the (error-kind, position) pair to the reported
  errors.
\<close>

definition ERROR :: "trans_t \<Rightarrow> ec_t \<Rightarrow> errpos_t \<Rightarrow> trans_t" where
  "ERROR t ec p = t\<lparr>errors := errors t @ [(ec, p)]\<rparr>"

section \<open>Lowering of statements (trans\_stmt.c)\<close>

text \<open>
  Expression lowering (trans\_exp.c) and the comparison of metadata (meta.c) are not in
  src: statement lowering takes them as parameters. Modelled from the spec: lowering an
  expression rewrites it in place and may leave piggyback statements on the current
  block; each of the three entry points gives the rewritten expression and the piggyback
  statements it leaves.
\<close>

record trans_ext =
  exp_trans :: "ast_exp \<Rightarrow> ast_exp \<times> ast_stmt list"
  exp_trans_to_lval :: "ast_exp \<Rightarrow> ast_exp \<times> ast_stmt list"
  exp_trans_to_rval :: "ast_exp \<Rightarrow> ast_exp \<times> ast_stmt list"
  meta_cmp :: "meta_t \<Rightarrow> meta_t \<Rightarrow> int"

text \<open>
  \<^verbatim>\<open>stmt_trans_exp\<close>. The statement that is appended is the one the code holds a pointer
  to: it carries the lowered expression.
\<close>

definition stmt_trans_exp :: "trans_ext \<Rightarrow> trans_t \<Rightarrow> ast_stmt \<Rightarrow> fatal + trans_t" where
  "stmt_trans_exp X t stmt =
    (case stmt of
       STMT_EXP lb p e \<Rightarrow>
         (case exp_trans_to_lval X e of
            (e', pgs) \<Rightarrow>
              and_then (bb_add_piggyback t (bb t) pgs) (\<lambda>t.
                (let t = t\<lparr>is_lval := False\<rparr> in
                 if is_call_exp e' then bb_add_stmt t (bb t) (STMT_EXP lb p e')
                 else
                   and_then (has_piggyback t (bb t)) (\<lambda>h.
                     if h then
                       bb_modify t (bb t)
                         (\<lambda>blk. blk\<lparr>stmts := stmts blk @ pgbacks blk, pgbacks := []\<rparr>)
                     else Inr t))))
     | _ \<Rightarrow> Inl WRONG_KIND)"

text \<open>
  The two loops of \<^verbatim>\<open>stmt_trans_assign\<close>. \<open>assign_each\<close> is the loop of the branch with
  equally many variables and values: \<open>i\<close> is the index of the head of the values that
  remain. \<open>assign_elems\<close> is the inner loop over the elements of a tuple-typed value: \<open>j\<close> is
  the element's index and \<open>n\<close> the number of elements still to go. \<open>assign_flat\<close> is the
  outer loop of the branch with more variables than values; the variable index
  \<open>var_idx\<close> is advanced at each \<^verbatim>\<open>var_idx++\<close> of the code.
\<close>

fun assign_each ::
  "trans_ext \<Rightarrow> trans_t \<Rightarrow> errpos_t \<Rightarrow> ast_exp list \<Rightarrow> ast_exp list \<Rightarrow> nat \<Rightarrow> fatal + trans_t"
where
  "assign_each X t p var_exps [] i = Inr t"
| "assign_each X t p var_exps (val_exp # rest) i =
    and_then (array_get var_exps i) (\<lambda>var_exp.
      if meta_cmp X (exp_meta var_exp) (exp_meta val_exp) \<noteq> 0
      then Inl (ASSERT ''meta_cmp(&var_exp->meta, &val_exp->meta) == 0'')
      else
        and_then (bb_add_stmt t (bb t) (stmt_new_assign var_exp val_exp p)) (\<lambda>t.
          assign_each X t p var_exps rest (i + 1)))"

fun assign_elems ::
  "trans_ext \<Rightarrow> trans_t \<Rightarrow> errpos_t \<Rightarrow> ast_exp list \<Rightarrow> ast_exp \<Rightarrow> nat \<Rightarrow> nat \<Rightarrow> nat \<Rightarrow>
     fatal + (trans_t \<times> nat)"
where
  "assign_elems X t p var_exps val_exp var_idx j 0 = Inr (t, var_idx)"
| "assign_elems X t p var_exps val_exp var_idx j (Suc n) =
    and_then (array_get var_exps var_idx) (\<lambda>var_exp.
      and_then
        (case val_exp of
           EXP_TUPLE _ _ exps \<Rightarrow> array_get exps j
         | _ \<Rightarrow> Inl WRONG_KIND) (\<lambda>elem_exp.
        if meta_cmp X (exp_meta var_exp) (exp_meta elem_exp) \<noteq> 0
        then Inl (ASSERT ''meta_cmp(&var_exp->meta, &elem_exp->meta) == 0'')
        else
          and_then (bb_add_stmt t (bb t) (stmt_new_assign var_exp elem_exp p)) (\<lambda>t.
            assign_elems X t p var_exps val_exp (var_idx + 1) (j + 1) n)))"

fun assign_flat ::
  "trans_ext \<Rightarrow> trans_t \<Rightarrow> errpos_t \<Rightarrow> ast_exp list \<Rightarrow> ast_exp list \<Rightarrow> nat \<Rightarrow> fatal + trans_t"
where
  "assign_flat X t p var_exps [] var_idx = Inr t"
| "assign_flat X t p var_exps (val_exp # rest) var_idx =
    (if is_tuple_type (exp_meta val_exp) then
       and_then
         (assign_elems X t p var_exps val_exp var_idx 0 (nat (elem_cnt (exp_meta val_exp))))
         (\<lambda>(t, var_idx). assign_flat X t p var_exps rest var_idx)
     else
       and_then (array_get var_exps var_idx) (\<lambda>var_exp.
         if meta_cmp X (exp_meta var_exp) (exp_meta val_exp) \<noteq> 0
         then Inl (ASSERT ''meta_cmp(&var_exp->meta, &val_exp->meta) == 0'')
         else
           and_then (array_get var_exps (var_idx + 1)) (\<lambda>var_exp2.
             and_then (bb_add_stmt t (bb t) (stmt_new_assign var_exp2 val_exp p)) (\<lambda>t.
               assign_flat X t p var_exps rest (var_idx + 2)))))"

definition stmt_trans_assign :: "trans_ext \<Rightarrow> trans_t \<Rightarrow> ast_stmt \<Rightarrow> fatal + trans_t" where
  "stmt_trans_assign X t stmt =
    (case stmt of
       STMT_ASSIGN lb p l_exp0 r_exp0 \<Rightarrow>
         (case exp_trans_to_lval X l_exp0 of
            (l_exp, l_pgs) \<Rightarrow>
              and_then (bb_add_piggyback t (bb t) l_pgs) (\<lambda>t.
                (case exp_trans_to_rval X r_exp0 of
                   (r_exp, r_pgs) \<Rightarrow>
                     and_then (bb_add_piggyback t (bb t) r_pgs) (\<lambda>t.
                       (case l_exp of
                          EXP_TUPLE _ _ var_exps \<Rightarrow>
                            (case r_exp of
                               EXP_TUPLE _ _ val_exps \<Rightarrow>
                                 if length var_exps = length val_exps
                                 then assign_each X t p var_exps val_exps 0
                                 else if \<not> length val_exps < length var_exps
                                 then Inl (ASSERT
                                   ''array_size(var_exps) > array_size(val_exps)'')
                                 else assign_flat X t p var_exps val_exps 0
                             | _ \<Rightarrow> Inl (ASSERT ''is_tuple_exp(r_exp)''))
                        | _ \<Rightarrow> bb_add_stmt t (bb t) (STMT_ASSIGN lb p l_exp r_exp))))))
     | _ \<Rightarrow> Inl WRONG_KIND)"

definition stmt_trans_array_loop :: "trans_ext \<Rightarrow> trans_t \<Rightarrow> ast_stmt \<Rightarrow> fatal + trans_t" where
  "stmt_trans_array_loop X t stmt = Inr (ERROR t ERROR_NOT_SUPPORTED (pos stmt))"

definition stmt_trans_return :: "trans_ext \<Rightarrow> trans_t \<Rightarrow> ast_stmt \<Rightarrow> fatal + trans_t" where
  "stmt_trans_return X t stmt =
    (case stmt of
       STMT_RETURN lb p arg_exp \<Rightarrow>
         (case (case arg_exp of
                  None \<Rightarrow> (None, [])
                | Some e \<Rightarrow> (case exp_trans X e of (e', pgs) \<Rightarrow> (Some e', pgs))) of
            (arg_exp', pgs) \<Rightarrow>
              and_then (bb_add_piggyback t (bb t) pgs) (\<lambda>t.
              and_then (bb_add_stmt t (bb t) (STMT_RETURN lb p arg_exp')) (\<lambda>t.
              and_then (bb_add_branch t (bb t) None (Some (exit_bb (fn t)))) (\<lambda>t.
              and_then (fn_add_basic_blk t (bb t)) (\<lambda>t.
                Inr (t\<lparr>bb := None\<rparr>))))))
     | _ \<Rightarrow> Inl WRONG_KIND)"

definition stmt_trans_continue :: "trans_ext \<Rightarrow> trans_t \<Rightarrow> ast_stmt \<Rightarrow> fatal + trans_t" where
  "stmt_trans_continue X t stmt =
    (if cont_bb t = None then Inl (ASSERT ''trans->cont_bb != NULL'')
     else
       and_then (bb_add_branch t (bb t) None (cont_bb t)) (\<lambda>t.
       and_then (fn_add_basic_blk t (bb t)) (\<lambda>t.
         Inr (t\<lparr>bb := None\<rparr>))))"

definition stmt_trans_break :: "trans_ext \<Rightarrow> trans_t \<Rightarrow> ast_stmt \<Rightarrow> fatal + trans_t" where
  "stmt_trans_break X t stmt =
    (case stmt of
       STMT_BREAK lb p cond_exp \<Rightarrow>
         (case bb_new t of
            (next_bb, t) \<Rightarrow>
              if break_bb t = None then Inl (ASSERT ''trans->break_bb != NULL'')
              else
                and_then
                  (case cond_exp of
                     Some e \<Rightarrow>
                       (case exp_trans X e of
                          (e', pgs) \<Rightarrow>
                            and_then (bb_add_piggyback t (bb t) pgs) (\<lambda>t.
                            and_then (bb_add_branch t (bb t) (Some e') (break_bb t)) (\<lambda>t.
                              bb_add_branch t (bb t) None (Some next_bb))))
                   | None \<Rightarrow> bb_add_branch t (bb t) None (break_bb t)) (\<lambda>t.
                and_then (fn_add_basic_blk t (bb t)) (\<lambda>t.
                  Inr (t\<lparr>bb := Some next_bb\<rparr>))))
     | _ \<Rightarrow> Inl WRONG_KIND)"

definition stmt_trans_goto :: "trans_ext \<Rightarrow> trans_t \<Rightarrow> ast_stmt \<Rightarrow> fatal + trans_t" where
  "stmt_trans_goto X t stmt =
    (case stmt of
       STMT_GOTO lb p jump_label_bb \<Rightarrow>
         if jump_label_bb = None then Inl (ASSERT ''jump_id->u_lab.stmt->label_bb != NULL'')
         else
           and_then (bb_add_branch t (bb t) None jump_label_bb) (\<lambda>t.
           and_then (fn_add_basic_blk t (bb t)) (\<lambda>t.
             Inr (t\<lparr>bb := None\<rparr>)))
     | _ \<Rightarrow> Inl WRONG_KIND)"

definition stmt_trans_ddl :: "trans_ext \<Rightarrow> trans_t \<Rightarrow> ast_stmt \<Rightarrow> fatal + trans_t" where
  "stmt_trans_ddl X t stmt = bb_add_stmt t (bb t) stmt"

text \<open>
  The opening lines of \<^verbatim>\<open>stmt_trans\<close>: a labelled statement closes the current block with
  a branch to its label block and continues there; an unlabelled one gets a fresh block
  when there is no current block.
\<close>

definition stmt_trans_label :: "trans_t \<Rightarrow> ast_stmt \<Rightarrow> fatal + trans_t" where
  "stmt_trans_label t stmt =
    (if label_bb stmt \<noteq> None then
       and_then
         (if bb t \<noteq> None then
            and_then (bb_add_branch t (bb t) None (label_bb stmt)) (\<lambda>t.
              fn_add_basic_blk t (bb t))
          else Inr t) (\<lambda>t.
         Inr (t\<lparr>bb := label_bb stmt\<rparr>))
     else if bb t = None then
       (case bb_new t of (b, t) \<Rightarrow> Inr (t\<lparr>bb := Some b\<rparr>))
     else Inr t)"

text \<open>
  \<^verbatim>\<open>stmt_trans\<close> and the functions it is mutually recursive with. Each function of the code
  that reads a member of the statement's union takes the statement and fails with
  \<open>WRONG_KIND\<close> on a statement of another kind. \<open>stmt_trans_elifs\<close> is the loop of
  \<^verbatim>\<open>stmt_trans_if\<close> over the else-if statements and \<open>stmt_trans_cases\<close> the loop of
  \<^verbatim>\<open>stmt_trans_switch\<close> over the case statements; \<open>rest = []\<close> there is the test
  \<^verbatim>\<open>i == array_size(&blk->stmts) - 1\<close>. Where the code adds a branch guarded by an expression
  and then lowers that expression in place, the branch's guard is the lowered expression.

  Modelled from the spec: \<^verbatim>\<open>blk_trans\<close> (trans\_blk.c is not in src) lowers the statements of
  a block in order. The loop of \<^verbatim>\<open>stmt_trans_switch\<close> over the statements of a case is
  the same loop.
\<close>

function stmt_trans :: "trans_ext \<Rightarrow> trans_t \<Rightarrow> ast_stmt \<Rightarrow> fatal + trans_t"
  and blk_trans :: "trans_ext \<Rightarrow> trans_t \<Rightarrow> ast_stmt list \<Rightarrow> fatal + trans_t"
  and stmt_trans_if :: "trans_ext \<Rightarrow> trans_t \<Rightarrow> ast_stmt \<Rightarrow> fatal + trans_t"
  and stmt_trans_elifs ::
    "trans_ext \<Rightarrow> nat option \<Rightarrow> nat \<Rightarrow> trans_t \<Rightarrow> ast_stmt list \<Rightarrow> fatal + trans_t"
  and stmt_trans_for_loop :: "trans_ext \<Rightarrow> trans_t \<Rightarrow> ast_stmt \<Rightarrow> fatal + trans_t"
  and stmt_trans_loop :: "trans_ext \<Rightarrow> trans_t \<Rightarrow> ast_stmt \<Rightarrow> fatal + trans_t"
  and stmt_trans_switch :: "trans_ext \<Rightarrow> trans_t \<Rightarrow> ast_stmt \<Rightarrow> fatal + trans_t"
  and stmt_trans_cases ::
    "trans_ext \<Rightarrow> nat option \<Rightarrow> nat \<Rightarrow> trans_t \<Rightarrow> ast_stmt list \<Rightarrow> fatal + trans_t"
  and stmt_trans_blk :: "trans_ext \<Rightarrow> trans_t \<Rightarrow> ast_stmt \<Rightarrow> fatal + trans_t"
where
  "stmt_trans X t stmt =
    and_then (stmt_trans_label t stmt) (\<lambda>t.
      (case stmt of
         STMT_NULL _ _ \<Rightarrow> Inr t
       | STMT_EXP _ _ _ \<Rightarrow> stmt_trans_exp X t stmt
       | STMT_ASSIGN _ _ _ _ \<Rightarrow> stmt_trans_assign X t stmt
       | STMT_IF _ _ _ _ _ _ \<Rightarrow> stmt_trans_if X t stmt
       | STMT_LOOP _ _ _ _ _ \<Rightarrow> stmt_trans_loop X t stmt
       | STMT_SWITCH _ _ _ _ \<Rightarrow> stmt_trans_switch X t stmt
       | STMT_CASE _ _ _ _ \<Rightarrow> Inr t
       | STMT_RETURN _ _ _ \<Rightarrow> stmt_trans_return X t stmt
       | STMT_CONTINUE _ _ \<Rightarrow> stmt_trans_continue X t stmt
       | STMT_BREAK _ _ _ \<Rightarrow> stmt_trans_break X t stmt
       | STMT_GOTO _ _ _ \<Rightarrow> stmt_trans_goto X t stmt
       | STMT_DDL _ _ \<Rightarrow> stmt_trans_ddl X t stmt
       | STMT_BLK _ _ _ \<Rightarrow> stmt_trans_blk X t stmt))"
| "blk_trans X t [] = Inr t"
| "blk_trans X t (stmt # rest) = and_then (stmt_trans X t stmt) (\<lambda>t. blk_trans X t rest)"
| "stmt_trans_if X t stmt =
    (case stmt of
       STMT_IF lb p cond_exp if_blk elif_stmts else_blk \<Rightarrow>
         (let prev_bb = bb t in
          case bb_new t of
            (next_bb, t) \<Rightarrow>
              and_then (fn_add_basic_blk t prev_bb) (\<lambda>t.
                (case bb_new t of
                   (b, t) \<Rightarrow>
                     (case exp_trans X cond_exp of
                        (cond_exp', pgs) \<Rightarrow>
                          and_then (bb_add_branch (t\<lparr>bb := Some b\<rparr>) prev_bb
                                      (Some cond_exp') (Some b)) (\<lambda>t.
                          and_then (bb_add_piggyback t (bb t) pgs) (\<lambda>t.
                          and_then (case if_blk of
                                      None \<Rightarrow> Inr t
                                    | Some blk \<Rightarrow> blk_trans X t blk) (\<lambda>t.
                          and_then (bb_add_branch t (bb t) None (Some next_bb)) (\<lambda>t.
                          and_then (fn_add_basic_blk t (bb t)) (\<lambda>t.
                          and_then (stmt_trans_elifs X prev_bb next_bb t elif_stmts) (\<lambda>t.
                          and_then
                            (case else_blk of
                               Some blk \<Rightarrow>
                                 (case bb_new t of
                                    (b, t) \<Rightarrow>
                                      and_then (bb_add_branch (t\<lparr>bb := Some b\<rparr>) prev_bb
                                                  None (Some b)) (\<lambda>t.
                                      and_then (blk_trans X t blk) (\<lambda>t.
                                      and_then (bb_add_branch t (bb t) None
                                                  (Some next_bb)) (\<lambda>t.
                                        fn_add_basic_blk t (bb t)))))
                             | None \<Rightarrow> bb_add_branch t prev_bb None (Some next_bb)) (\<lambda>t.
                            Inr (t\<lparr>bb := Some next_bb\<rparr>))))))))))))
     | _ \<Rightarrow> Inl WRONG_KIND)"
| "stmt_trans_elifs X prev_bb next_bb t [] = Inr t"
| "stmt_trans_elifs X prev_bb next_bb t (elif_stmt # rest) =
    (case elif_stmt of
       STMT_IF lb p cond_exp if_blk elif_stmts else_blk \<Rightarrow>
         (case bb_new t of
            (b, t) \<Rightarrow>
              (case exp_trans X cond_exp of
                 (cond_exp', pgs) \<Rightarrow>
                   and_then (bb_add_branch (t\<lparr>bb := Some b\<rparr>) prev_bb
                               (Some cond_exp') (Some b)) (\<lambda>t.
                   and_then (bb_add_piggyback t (bb t) pgs) (\<lambda>t.
                   and_then (case if_blk of
                               None \<Rightarrow> Inr t
                             | Some blk \<Rightarrow> blk_trans X t blk) (\<lambda>t.
                   and_then (bb_add_branch t (bb t) None (Some next_bb)) (\<lambda>t.
                   and_then (fn_add_basic_blk t (bb t)) (\<lambda>t.
                     stmt_trans_elifs X prev_bb next_bb t rest)))))))
     | _ \<Rightarrow> Inl WRONG_KIND)"
| "stmt_trans_for_loop X t stmt =
    (case stmt of
       STMT_LOOP lb p kind init_stmt blk \<Rightarrow>
         (let prev_bb = bb t in
          case bb_new t of
            (cond_bb, t) \<Rightarrow>
              (case bb_new t of
                 (next_bb, t) \<Rightarrow>
                   and_then (case init_stmt of
                               None \<Rightarrow> Inr t
                             | Some s \<Rightarrow> stmt_trans X t s) (\<lambda>t.
                   and_then (bb_add_branch t prev_bb None (Some cond_bb)) (\<lambda>t.
                   and_then (fn_add_basic_blk t prev_bb) (\<lambda>t.
                   and_then (blk_trans X
                               (t\<lparr>bb := Some cond_bb, cont_bb := Some cond_bb,
                                  break_bb := Some next_bb\<rparr>) blk) (\<lambda>t.
                   and_then
                     (let t = t\<lparr>cont_bb := None, break_bb := None\<rparr> in
                      if bb t \<noteq> None then
                        and_then (bb_add_branch t (bb t) None (Some cond_bb)) (\<lambda>t.
                          fn_add_basic_blk t (bb t))
                      else bb_add_branch t (Some cond_bb) None (Some cond_bb)) (\<lambda>t.
                     Inr (t\<lparr>bb := Some next_bb\<rparr>))))))))
     | _ \<Rightarrow> Inl WRONG_KIND)"
| "stmt_trans_loop X t stmt =
    (case stmt of
       STMT_LOOP lb p kind init_stmt blk \<Rightarrow>
         (case kind of
            LOOP_FOR \<Rightarrow> stmt_trans_for_loop X t stmt
          | LOOP_ARRAY \<Rightarrow> stmt_trans_array_loop X t stmt)
     | _ \<Rightarrow> Inl WRONG_KIND)"
| "stmt_trans_switch X t stmt =
    (case stmt of
       STMT_SWITCH lb p blk has_dflt \<Rightarrow>
         (let prev_bb = bb t in
          case bb_new t of
            (next_bb, t) \<Rightarrow>
              and_then (fn_add_basic_blk t prev_bb) (\<lambda>t.
                (case bb_new (t\<lparr>cont_bb := None, break_bb := Some next_bb\<rparr>) of
                   (b, t) \<Rightarrow>
                     and_then (stmt_trans_cases X prev_bb next_bb (t\<lparr>bb := Some b\<rparr>) blk)
                       (\<lambda>t.
                     and_then (if \<not> has_dflt
                               then bb_add_branch t prev_bb None (Some next_bb)
                               else Inr t) (\<lambda>t.
                       Inr (t\<lparr>break_bb := None, bb := Some next_bb\<rparr>))))))
     | _ \<Rightarrow> Inl WRONG_KIND)"
| "stmt_trans_cases X prev_bb next_bb t [] = Inr t"
| "stmt_trans_cases X prev_bb next_bb t (case_stmt # rest) =
    (case case_stmt of
       STMT_CASE lb p val_exp case_stmts \<Rightarrow>
         (case (case val_exp of
                  None \<Rightarrow> (None, [])
                | Some e \<Rightarrow> (case exp_trans X e of (e', pgs) \<Rightarrow> (Some e', pgs))) of
            (val_exp', pgs) \<Rightarrow>
              and_then (bb_add_branch t prev_bb val_exp' (bb t)) (\<lambda>t.
              and_then (bb_add_piggyback t (bb t) pgs) (\<lambda>t.
              and_then (blk_trans X t case_stmts) (\<lambda>t.
              and_then
                (if bb t \<noteq> None then
                   if rest = [] then
                     and_then (bb_add_branch t (bb t) None (Some next_bb)) (\<lambda>t.
                       fn_add_basic_blk t (bb t))
                   else
                     (case bb_new t of
                        (case_bb, t) \<Rightarrow>
                          and_then (bb_add_branch t (bb t) None (Some case_bb)) (\<lambda>t.
                          and_then (fn_add_basic_blk t (bb t)) (\<lambda>t.
                            Inr (t\<lparr>bb := Some case_bb\<rparr>))))
                 else if rest \<noteq> [] then
                   (case bb_new t of (b, t) \<Rightarrow> Inr (t\<lparr>bb := Some b\<rparr>))
                 else Inr t) (\<lambda>t.
                stmt_trans_cases X prev_bb next_bb t rest)))))
     | _ \<Rightarrow> Inl WRONG_KIND)"
| "stmt_trans_blk X t stmt =
    (case stmt of
       STMT_BLK lb p blk \<Rightarrow> (case blk of None \<Rightarrow> Inr t | Some b \<Rightarrow> blk_trans X t b)
     | _ \<Rightarrow> Inl WRONG_KIND)"

  by pat_completeness auto

termination
  by (relation "measure (\<lambda>x. case x of
        Inl (Inl (Inl (X, t, s))) \<Rightarrow> 3 * size s + 2
      | Inl (Inl (Inr (X, t, ss))) \<Rightarrow> 3 * size_list size ss + 2
      | Inl (Inr (Inl (X, t, s))) \<Rightarrow> 3 * size s
      | Inl (Inr (Inr (X, p, n, t, ss))) \<Rightarrow> 3 * size_list size ss + 2
      | Inr (Inl (Inl (X, t, s))) \<Rightarrow> 3 * size s
      | Inr (Inl (Inr (X, t, s))) \<Rightarrow> 3 * size s + 1
      | Inr (Inr (Inl (X, t, s))) \<Rightarrow> 3 * size s
      | Inr (Inr (Inr (Inl (X, p, n, t, ss)))) \<Rightarrow> 3 * size_list size ss + 2
      | Inr (Inr (Inr (Inr (X, t, s)))) \<Rightarrow> 3 * size s)") simp_all


text \<open>
  The argument of a return statement after lowering, and the piggyback statements that
  lowering it leaves.
\<close>

definition lowered_arg :: "trans_ext \<Rightarrow> ast_exp option \<Rightarrow> ast_exp option" where
  "lowered_arg X arg_exp = map_option (\<lambda>e. fst (exp_trans X e)) arg_exp"

definition arg_pgbacks :: "trans_ext \<Rightarrow> ast_exp option \<Rightarrow> ast_stmt list" where
  "arg_pgbacks X arg_exp = (case arg_exp of None \<Rightarrow> [] | Some e \<Rightarrow> snd (exp_trans X e))"

section \<open>Example inputs\<close>

text \<open>
  Concrete values on which the theorems below are evaluated: metadata, identifiers and
  local-variable expressions, an expression lowering that leaves every expression as it
  is, an emitter that knows integer literals, and the translation state at the start of a
  function: block 0 is the entry block and the current block, block 1 the exit block.
\<close>

definition int32_meta :: meta_t where
  "int32_meta = \<lparr>mtype = TYPE_INT32, elem_cnt = 0, arr_dim = 0\<rparr>"

definition map_meta :: meta_t where
  "map_meta = \<lparr>mtype = TYPE_MAP, elem_cnt = 0, arr_dim = 0\<rparr>"

definition tuple_meta :: "int \<Rightarrow> meta_t" where
  "tuple_meta n = \<lparr>mtype = TYPE_TUPLE, elem_cnt = n, arr_dim = 0\<rparr>"

definition var_id :: "string \<Rightarrow> meta_t \<Rightarrow> int \<Rightarrow> ast_id_t" where
  "var_id n m i = \<lparr>name = n, id_meta = m, idx = i, is_return = False\<rparr>"

definition local_var :: "string \<Rightarrow> int \<Rightarrow> ast_exp" where
  "local_var n i = EXP_LOCAL (Some (var_id n int32_meta i)) int32_meta i"

definition id_ext :: trans_ext where
  "id_ext = \<lparr>exp_trans = (\<lambda>e. (e, [])), exp_trans_to_lval = (\<lambda>e. (e, [])),
     exp_trans_to_rval = (\<lambda>e. (e, [])),
     meta_cmp = (\<lambda>a b. if a = b then 0 else 1)\<rparr>"

definition fn_start :: trans_t where
  "fn_start =
    \<lparr>fn = \<lparr>bbs = [], entry_bb = 0, exit_bb = 1\<rparr>, bb = Some 0, cont_bb = None,
     break_bb = None, is_lval = False,
     blocks = [\<lparr>stmts = [], brs = [], pgbacks = []\<rparr>, \<lparr>stmts = [], brs = [], pgbacks = []\<rparr>],
     errors = []\<rparr>"

definition lit_gen :: gen_ext where
  "lit_gen =
    \<lparr>exp_gen = (\<lambda>g e. case e of Some (EXP_LIT i m n) \<Rightarrow> Some (BinaryenConst n) | _ \<Rightarrow> None),
     meta_gen = (\<lambda>m. BinaryenTypeInt32), type_gen = (\<lambda>ty. BinaryenTypeInt32)\<rparr>"

definition gen_start :: gen_t where
  "gen_start = \<lparr>gen_is_lval = False\<rparr>"

section \<open>What a statement holds: labels, goto targets, loop initialisers\<close>





section \<open>Runs of the block primitives\<close>

text \<open>
  \<open>add_bb\<close> is the block vector after \<^verbatim>\<open>fn_add_basic_blk\<close>.
\<close>

definition add_bb :: "nat \<Rightarrow> nat list \<Rightarrow> nat list" where
  "add_bb i bs = (if i \<in> set bs then bs else bs @ [i])"

text \<open>
  The statements the back end accepts: expression, assignment, return and DDL statements.
\<close>

fun simple_stmt :: "ast_stmt \<Rightarrow> bool" where
  "simple_stmt (STMT_EXP lb p e) = True"
| "simple_stmt (STMT_ASSIGN lb p l r) = True"
| "simple_stmt (STMT_RETURN lb p a) = True"
| "simple_stmt (STMT_DDL lb p) = True"
| "simple_stmt s = False"

text \<open>
  \<open>lowers_into X N\<close>: the statements that lowering appends on its own behalf, and the
  piggyback statements that expression lowering leaves, are all in \<open>N\<close>.
\<close>

definition lowers_into :: "trans_ext \<Rightarrow> ast_stmt set \<Rightarrow> bool" where
  "lowers_into X N =
    ((\<forall>s. simple_stmt s \<longrightarrow> s \<in> N) \<and>
     (\<forall>e. set (snd (exp_trans X e)) \<subseteq> N \<and> set (snd (exp_trans_to_lval X e)) \<subseteq> N \<and>
          set (snd (exp_trans_to_rval X e)) \<subseteq> N))"

text \<open>
  A run is a sequence of steps of the block primitives from one translation state to
  another, under four parameters. \<open>M\<close> are the blocks a step may change or make current.
  \<open>N\<close> are the statements a step may put into a block. \<open>P\<close> are the blocks a new branch may
  point to besides the blocks of the function and the current block; a block may be
  pending inside a run (\<open>scope\<close>). When \<open>g\<close> holds, the current block is given up only after
  it has been added to the function, and a pending block is a block of the function or
  current when its scope ends.
\<close>

inductive run ::
  "bool \<Rightarrow> ast_stmt set \<Rightarrow> nat set \<Rightarrow> nat set \<Rightarrow> trans_t \<Rightarrow> trans_t \<Rightarrow> bool"
  for g :: bool and N :: "ast_stmt set" and M :: "nat set"
where
  refl: "run g N M P t t"
| step: "run g N M P t t1 \<Longrightarrow> run g N M P t1 t2 \<Longrightarrow> run g N M P t t2"
| new: "run g N M P t (snd (bb_new t))"
| edit: "i \<in> M \<Longrightarrow> i < length (blocks t) \<Longrightarrow> brs blk = brs (blocks t ! i) \<Longrightarrow>
     set (stmts blk) \<union> set (pgbacks blk) \<subseteq>
       set (stmts (blocks t ! i)) \<union> set (pgbacks (blocks t ! i)) \<union> N \<Longrightarrow>
     run g N M P t (t\<lparr>blocks := (blocks t)[i := blk]\<rparr>)"
| branch: "i \<in> M \<Longrightarrow> i < length (blocks t) \<Longrightarrow>
     y \<in> P \<union> set (bbs (fn t)) \<union> set_option (bb t) \<Longrightarrow>
     run g N M P t
       (t\<lparr>blocks := (blocks t)[i := (blocks t ! i)\<lparr>brs := brs (blocks t ! i) @ [(c, y)]\<rparr>]\<rparr>)"
| close: "run g N M P t (t\<lparr>fn := (fn t)\<lparr>bbs := add_bb i (bbs (fn t))\<rparr>\<rparr>)"
| enter: "(g \<longrightarrow> set_option (bb t) \<subseteq> set (bbs (fn t))) \<Longrightarrow> set_option v \<subseteq> M \<Longrightarrow>
     run g N M P t (t\<lparr>bb := v\<rparr>)"
| ctx: "run g N M P t (t\<lparr>cont_bb := c, break_bb := b, is_lval := l, errors := e\<rparr>)"
| scope: "run g N M (insert x P) t t' \<Longrightarrow>
     (g \<longrightarrow> x \<in> set (bbs (fn t')) \<union> set_option (bb t')) \<Longrightarrow> run g N M P t t'"
| weaken: "run g N M P t t' \<Longrightarrow> P \<subseteq> P' \<Longrightarrow> run g N M P' t t'"



text \<open>
  \<open>local_edit N t t'\<close>: \<open>t'\<close> is \<open>t\<close> with statements of \<open>N\<close> put into the current block, as
  statements or as piggyback statements, and possibly another expression context.
\<close>

definition local_edit :: "ast_stmt set \<Rightarrow> trans_t \<Rightarrow> trans_t \<Rightarrow> bool" where
  "local_edit N t t' =
    (fn t' = fn t \<and> bb t' = bb t \<and> cont_bb t' = cont_bb t \<and> break_bb t' = break_bb t \<and>
     errors t' = errors t \<and> length (blocks t') = length (blocks t) \<and>
     (\<forall>b < length (blocks t).
        brs (blocks t' ! b) = brs (blocks t ! b) \<and>
        set (stmts (blocks t' ! b)) \<union> set (pgbacks (blocks t' ! b)) \<subseteq>
          set (stmts (blocks t ! b)) \<union> set (pgbacks (blocks t ! b)) \<union> N \<and>
        (bb t \<noteq> Some b \<longrightarrow> blocks t' ! b = blocks t ! b)))"

text \<open>
  \<open>evolved t t'\<close>: the continue and break targets of \<open>t'\<close> are those of \<open>t\<close> or cleared.
\<close>

definition evolved :: "trans_t \<Rightarrow> trans_t \<Rightarrow> bool" where
  "evolved t t' =
    ((cont_bb t' = cont_bb t \<or> cont_bb t' = None) \<and>
     (break_bb t' = break_bb t \<or> break_bb t' = None))"

text \<open>
  The blocks that a branch added while lowering \<open>s\<close> from \<open>t\<close> may point to before they are
  blocks of the function: the exit block, the continue and break targets, and the targets
  of goto statements.
\<close>

definition pending :: "trans_t \<Rightarrow> nat set" where
  "pending t = {exit_bb (fn t)} \<union> set_option (cont_bb t) \<union> set_option (break_bb t)"

section \<open>Fragments of the lowering functions\<close>

text \<open>
  The closing lines of \<^verbatim>\<open>stmt_trans_for_loop\<close>, the lines that end a case in
  \<^verbatim>\<open>stmt_trans_switch\<close> and the lowering of a case's value, named so that the proofs can
  speak of them. The functions above contain them verbatim.
\<close>

definition close_loop :: "trans_t \<Rightarrow> nat \<Rightarrow> fatal + trans_t" where
  "close_loop t cond_bb =
    (if bb t \<noteq> None then
       and_then (bb_add_branch t (bb t) None (Some cond_bb)) (\<lambda>t.
         fn_add_basic_blk t (bb t))
     else bb_add_branch t (Some cond_bb) None (Some cond_bb))"

definition next_case :: "trans_t \<Rightarrow> nat \<Rightarrow> ast_stmt list \<Rightarrow> fatal + trans_t" where
  "next_case t next_bb rest =
    (if bb t \<noteq> None then
       if rest = [] then
         and_then (bb_add_branch t (bb t) None (Some next_bb)) (\<lambda>t.
           fn_add_basic_blk t (bb t))
       else
         (case bb_new t of
            (case_bb, t) \<Rightarrow>
              and_then (bb_add_branch t (bb t) None (Some case_bb)) (\<lambda>t.
              and_then (fn_add_basic_blk t (bb t)) (\<lambda>t.
                Inr (t\<lparr>bb := Some case_bb\<rparr>))))
     else if rest \<noteq> [] then
       (case bb_new t of (b, t) \<Rightarrow> Inr (t\<lparr>bb := Some b\<rparr>))
     else Inr t)"

definition case_value ::
  "trans_ext \<Rightarrow> ast_exp option \<Rightarrow> ast_exp option \<times> ast_stmt list" where
  "case_value X val_exp =
    (case val_exp of
       None \<Rightarrow> (None, [])
     | Some e \<Rightarrow> (case exp_trans X e of (e', pgs) \<Rightarrow> (Some e', pgs)))"


section \<open>Example states\<close>



section \<open>Obligations of a lowering function\<close>

text \<open>
  \<open>ready M P t\<close>: the current block and every block yet to be made are in \<open>M\<close>, and the exit
  block and the continue and break targets are in \<open>P\<close>. \<open>closed t\<close>: the current block, if
  any, is a block of the function. \<open>live t\<close>: the blocks of the function and the current
  block.
\<close>

definition ready :: "nat set \<Rightarrow> nat set \<Rightarrow> trans_t \<Rightarrow> bool" where
  "ready M P t =
    (set_option (bb t) \<subseteq> M \<and> {b. length (blocks t) \<le> b} \<subseteq> M \<and> pending t \<subseteq> P)"


definition live :: "trans_t \<Rightarrow> nat set" where
  "live t = set (bbs (fn t)) \<union> set_option (bb t)"

text \<open>
  \<open>lowering g N M f L G\<close>: from a ready state, with the goto targets \<open>G\<close> pending, a successful
  call of \<open>f\<close> is a run, after which (under \<open>g\<close>) the label blocks \<open>L\<close> are live. The loops
  over else-if and case statements also take the predecessor and the join block.
\<close>

definition lowering ::
  "bool \<Rightarrow> ast_stmt set \<Rightarrow> nat set \<Rightarrow> (trans_t \<Rightarrow> fatal + trans_t) \<Rightarrow> nat set \<Rightarrow> nat set \<Rightarrow> bool" where
  "lowering g N M f L G =
    (\<forall>P t t'. f t = Inr t' \<longrightarrow> G \<subseteq> P \<longrightarrow> ready M P t \<longrightarrow>
       run g N M P t t' \<and> (g \<longrightarrow> L \<subseteq> live t'))"



text \<open>
  The optional block of an if statement and the optional initialiser of a for loop, as
  \<^verbatim>\<open>stmt_trans_if\<close> and \<^verbatim>\<open>stmt_trans_for_loop\<close> lower them, with their labels and goto targets.
\<close>

definition arm :: "trans_ext \<Rightarrow> ast_stmt list option \<Rightarrow> trans_t \<Rightarrow> fatal + trans_t" where
  "arm X blk t = (case blk of None \<Rightarrow> Inr t | Some b \<Rightarrow> blk_trans X t b)"





section \<open>Jumps without a target\<close>

text \<open>
  \<open>free_jump j s\<close>: lowering \<open>s\<close> visits a continue statement (\<open>j = JUMP_CONTINUE\<close>) or a break
  statement (\<open>j = JUMP_BREAK\<close>) that no for loop or switch inside \<open>s\<close> gives a target. The body
  of a for loop has both targets; the cases of a switch have a break target and, since
  \<^verbatim>\<open>stmt_trans_switch\<close> sets \<^verbatim>\<open>cont_bb\<close> to \<^verbatim>\<open>NULL\<close>, no continue target. The initialiser of a
  for loop is lowered before the targets are set. \<open>jump_target j t\<close> is the target the jump
  reads.
\<close>

datatype jump_t = JUMP_CONTINUE | JUMP_BREAK


fun free_jump :: "jump_t \<Rightarrow> ast_stmt \<Rightarrow> bool"
  and free_jump_blk :: "jump_t \<Rightarrow> ast_stmt list \<Rightarrow> bool"
  and free_jump_elifs :: "jump_t \<Rightarrow> ast_stmt list \<Rightarrow> bool"
  and free_jump_cases :: "jump_t \<Rightarrow> ast_stmt list \<Rightarrow> bool"
where
  "free_jump j (STMT_CONTINUE lb p) = (j = JUMP_CONTINUE)"
| "free_jump j (STMT_BREAK lb p c) = (j = JUMP_BREAK)"
| "free_jump j (STMT_IF lb p c ib es eb) =
     ((case ib of None \<Rightarrow> False | Some blk \<Rightarrow> free_jump_blk j blk) \<or> free_jump_elifs j es \<or>
      (case eb of None \<Rightarrow> False | Some blk \<Rightarrow> free_jump_blk j blk))"
| "free_jump j (STMT_LOOP lb p k i blk) =
     (k = LOOP_FOR \<and> (case i of None \<Rightarrow> False | Some s \<Rightarrow> free_jump j s))"
| "free_jump j (STMT_SWITCH lb p cs d) = (j = JUMP_CONTINUE \<and> free_jump_cases j cs)"
| "free_jump j (STMT_BLK lb p blk) = (case blk of None \<Rightarrow> False | Some b \<Rightarrow> free_jump_blk j b)"
| "free_jump j (STMT_CASE lb p v body) = False"
| "free_jump j (STMT_NULL lb p) = False"
| "free_jump j (STMT_EXP lb p e) = False"
| "free_jump j (STMT_ASSIGN lb p l r) = False"
| "free_jump j (STMT_RETURN lb p a) = False"
| "free_jump j (STMT_GOTO lb p g) = False"
| "free_jump j (STMT_DDL lb p) = False"
| "free_jump_blk j [] = False"
| "free_jump_blk j (s # ss) = (free_jump j s \<or> free_jump_blk j ss)"
| "free_jump_elifs j [] = False"
| "free_jump_elifs j (e # es) =
     ((case e of
         STMT_IF lb p c ib es' eb \<Rightarrow> (case ib of None \<Rightarrow> False | Some blk \<Rightarrow> free_jump_blk j blk)
       | _ \<Rightarrow> False) \<or> free_jump_elifs j es)"
| "free_jump_cases j [] = False"
| "free_jump_cases j (c # cs) =
     ((case c of STMT_CASE lb p v body \<Rightarrow> free_jump_blk j body | _ \<Rightarrow> False) \<or>
      free_jump_cases j cs)"




text \<open>
  The lines of \<^verbatim>\<open>stmt_trans_if\<close> that open an arm (a fresh block made current, the guarded
  branch from the predecessor, the lowering of the condition), that close an arm (the
  branch to the join block) and that open the else block.
\<close>

definition if_head :: "trans_ext \<Rightarrow> nat option \<Rightarrow> trans_t \<Rightarrow> ast_exp \<Rightarrow> fatal + trans_t" where
  "if_head X prev_bb t cond_exp =
    (case bb_new t of
       (b, t) \<Rightarrow>
         (case exp_trans X cond_exp of
            (cond_exp', pgs) \<Rightarrow>
              and_then (bb_add_branch (t\<lparr>bb := Some b\<rparr>) prev_bb (Some cond_exp') (Some b)) (\<lambda>t.
                bb_add_piggyback t (bb t) pgs)))"

definition if_tail :: "trans_t \<Rightarrow> nat \<Rightarrow> fatal + trans_t" where
  "if_tail t next_bb =
    and_then (bb_add_branch t (bb t) None (Some next_bb)) (\<lambda>t. fn_add_basic_blk t (bb t))"

definition else_head :: "nat option \<Rightarrow> trans_t \<Rightarrow> fatal + trans_t" where
  "else_head prev_bb t =
    (case bb_new t of (b, t) \<Rightarrow> bb_add_branch (t\<lparr>bb := Some b\<rparr>) prev_bb None (Some b))"

text \<open>
  \<open>reaches X t s u j\<close>: lowering \<open>s\<close> from \<open>t\<close> comes, with everything before lowered without a
  fatal error, to the call of \<^verbatim>\<open>stmt_trans\<close> on the statement \<open>j\<close> in the state \<open>u\<close>, where \<open>j\<close> is
  \<open>s\<close> or is inside the blocks of the if, else-if, else and block statements of \<open>s\<close>. The
  relation does not enter the body of a for loop or the cases of a switch.
\<close>

inductive reaches :: "trans_ext \<Rightarrow> trans_t \<Rightarrow> ast_stmt \<Rightarrow> trans_t \<Rightarrow> ast_stmt \<Rightarrow> bool"
  and reaches_blk :: "trans_ext \<Rightarrow> trans_t \<Rightarrow> ast_stmt list \<Rightarrow> trans_t \<Rightarrow> ast_stmt \<Rightarrow> bool"
  and reaches_elifs ::
    "trans_ext \<Rightarrow> nat option \<Rightarrow> nat \<Rightarrow> trans_t \<Rightarrow> ast_stmt list \<Rightarrow> trans_t \<Rightarrow> ast_stmt \<Rightarrow> bool"
  for X :: trans_ext
where
  here: "reaches X t s t s"
| in_if: "stmt_trans_label t (STMT_IF lb p c (Some blk) es eb) = Inr t0 \<Longrightarrow>
     fn_add_basic_blk (snd (bb_new t0)) (bb t0) = Inr t1 \<Longrightarrow>
     if_head X (bb t0) t1 c = Inr t3 \<Longrightarrow> reaches_blk X t3 blk u j \<Longrightarrow>
     reaches X t (STMT_IF lb p c (Some blk) es eb) u j"
| in_elifs: "stmt_trans_label t (STMT_IF lb p c ib es eb) = Inr t0 \<Longrightarrow>
     fn_add_basic_blk (snd (bb_new t0)) (bb t0) = Inr t1 \<Longrightarrow>
     if_head X (bb t0) t1 c = Inr t3 \<Longrightarrow> arm X ib t3 = Inr t4 \<Longrightarrow>
     if_tail t4 (length (blocks t0)) = Inr t6 \<Longrightarrow>
     reaches_elifs X (bb t0) (length (blocks t0)) t6 es u j \<Longrightarrow>
     reaches X t (STMT_IF lb p c ib es eb) u j"
| in_else: "stmt_trans_label t (STMT_IF lb p c ib es (Some blk)) = Inr t0 \<Longrightarrow>
     fn_add_basic_blk (snd (bb_new t0)) (bb t0) = Inr t1 \<Longrightarrow>
     if_head X (bb t0) t1 c = Inr t3 \<Longrightarrow> arm X ib t3 = Inr t4 \<Longrightarrow>
     if_tail t4 (length (blocks t0)) = Inr t6 \<Longrightarrow>
     stmt_trans_elifs X (bb t0) (length (blocks t0)) t6 es = Inr t7 \<Longrightarrow>
     else_head (bb t0) t7 = Inr t8 \<Longrightarrow> reaches_blk X t8 blk u j \<Longrightarrow>
     reaches X t (STMT_IF lb p c ib es (Some blk)) u j"
| in_blk: "stmt_trans_label t (STMT_BLK lb p (Some blk)) = Inr t0 \<Longrightarrow>
     reaches_blk X t0 blk u j \<Longrightarrow> reaches X t (STMT_BLK lb p (Some blk)) u j"
| first: "reaches X t s u j \<Longrightarrow> reaches_blk X t (s # ss) u j"
| later: "stmt_trans X t s = Inr t1 \<Longrightarrow> reaches_blk X t1 ss u j \<Longrightarrow>
     reaches_blk X t (s # ss) u j"
| elif_arm: "if_head X pb t c = Inr t3 \<Longrightarrow> reaches_blk X t3 blk u j \<Longrightarrow>
     reaches_elifs X pb nb t (STMT_IF lb p c (Some blk) es eb # rest) u j"
| elif_rest: "if_head X pb t c = Inr t3 \<Longrightarrow> arm X ib t3 = Inr t4 \<Longrightarrow>
     if_tail t4 nb = Inr t6 \<Longrightarrow> reaches_elifs X pb nb t6 rest u j \<Longrightarrow>
     reaches_elifs X pb nb t (STMT_IF lb p c ib es eb # rest) u j"


section \<open>The branches of a switch statement\<close>




section \<open>Lowering of a function\<close>



text \<open>
  \<open>reachable t b\<close>: block \<open>b\<close> is reached from the entry block of the function along the
  branches of the blocks.
\<close>

inductive reachable :: "trans_t \<Rightarrow> nat \<Rightarrow> bool" for t :: trans_t where
  entry: "reachable t (entry_bb (fn t))"
| branch: "reachable t a \<Longrightarrow> a < length (blocks t) \<Longrightarrow> (c, b) \<in> set (brs (blocks t ! a)) \<Longrightarrow>
     reachable t b"




definition reached :: "trans_t \<Rightarrow> nat set \<Rightarrow> bool" where
  "reached t S = (\<forall>b \<in> S. reachable t b)"







section \<open>Unfolding of the recursive functions\<close>



section \<open>Properties of the tables\<close>

lemma type_index_less: "type_index t < TYPE_MAX"
  by (cases t) (simp_all add: TYPE_MAX_def)

text \<open>
  C5. For every type tag the display-name, linear-memory-size and host-size lookups each
  return a value (they are functions of the tag alone, so the value is the same on every
  call), and the linear-memory size is 4 for bool, byte, int8, int16, int32, float and the
  pointer types int128, int256, string, account, struct, object, cursor and tuple, 8 for
  int64, map and double, and 0 for void and none.
\<close>

theorem type_lookups_total:
  "TYPE_NAME t = Some (type_names ! type_index t) \<and>
   TYPE_HOST_SIZE t = Some (type_bytes ! type_index t) \<and>
   TYPE_SIZE t =
     Some (if t \<in> {TYPE_BOOL, TYPE_BYTE, TYPE_INT8, TYPE_INT16, TYPE_INT32, TYPE_FLOAT,
                    TYPE_INT128, TYPE_INT256, TYPE_STRING, TYPE_ACCOUNT, TYPE_STRUCT,
                    TYPE_OBJECT, TYPE_CURSOR, TYPE_TUPLE} then 4
           else if t \<in> {TYPE_INT64, TYPE_MAP, TYPE_DOUBLE} then 8
           else 0)"
  by (cases t)
    (simp_all add: TYPE_NAME_def TYPE_HOST_SIZE_def TYPE_SIZE_def type_lookup_def TYPE_MAX_def
      type_names_def type_bytes_def type_sizes_def I32_def I64_def F32_def F64_def ADDR_def)


section \<open>Properties of the modifiers\<close>

lemma modifier_val_and:
  "m \<noteq> MOD_GLOBAL \<Longrightarrow> (modifier_val m' AND modifier_val m \<noteq> 0) = (m' = m)"
  by (cases m; cases m') simp_all

lemma mod_test_or:
  "mod_test (a OR b) m = (mod_test a m \<or> mod_test b m)"
  by (simp add: mod_test_def bit.conj_disj_distrib2 or_eq_0_iff)

lemma mod_test_mod_or:
  "m \<noteq> MOD_GLOBAL \<Longrightarrow> mod_test (mod_or ms) m = (m \<in> set ms)"
proof (induction ms)
  case Nil
  then show ?case by (simp add: mod_test_def)
next
  case (Cons a ms)
  have "mod_test (modifier_val a) m = (a = m)"
    using Cons.prems by (simp add: mod_test_def modifier_val_and)
  with Cons show ?case by (auto simp: mod_test_or)
qed

lemma bit_mod_or: "bit (mod_or ms) n = (\<exists>m \<in> set ms. bit (modifier_val m) n)"
  by (induction ms) (auto simp: bit_or_iff)

lemma mod_or_cong:
  assumes "set ms - {MOD_GLOBAL} = set ms' - {MOD_GLOBAL}"
  shows "mod_or ms = mod_or ms'"
proof (rule bit_eqI)
  fix n
  have "\<And>xs. (\<exists>m \<in> set xs. bit (modifier_val m) n) = (\<exists>m \<in> set xs - {MOD_GLOBAL}. bit (modifier_val m) n)"
    by auto
  then show "bit (mod_or ms) n = bit (mod_or ms') n"
    using assms by (simp add: bit_mod_or)
qed

lemma mod_or_inj:
  assumes "mod_or ms = mod_or ms'"
  shows "set ms - {MOD_GLOBAL} = set ms' - {MOD_GLOBAL}"
proof -
  have "\<And>m. m \<noteq> MOD_GLOBAL \<Longrightarrow> (m \<in> set ms) = (m \<in> set ms')"
    using assms mod_test_mod_or [of _ ms] mod_test_mod_or [of _ ms'] by simp
  then show ?thesis by auto
qed

lemma modifier_val_single_bit:
  assumes "m \<noteq> MOD_GLOBAL"
  shows "\<exists>k < 4. modifier_val m = 2 ^ k"
proof (cases m)
  case MOD_GLOBAL
  with assms show ?thesis by simp
next
  case MOD_LOCAL
  have "(0::nat) < 4 \<and> modifier_val MOD_LOCAL = 2 ^ 0" by simp
  with MOD_LOCAL show ?thesis by blast
next
  case MOD_SHARED
  have "(1::nat) < 4 \<and> modifier_val MOD_SHARED = 2 ^ 1" by simp
  with MOD_SHARED show ?thesis by blast
next
  case MOD_TRANSFER
  have "(2::nat) < 4 \<and> modifier_val MOD_TRANSFER = 2 ^ 2" by simp
  with MOD_TRANSFER show ?thesis by blast
next
  case MOD_READONLY
  have "(3::nat) < 4 \<and> modifier_val MOD_READONLY = 2 ^ 3" by simp
  with MOD_READONLY show ?thesis by blast
qed

text \<open>
  C7, as the claim states it, fails: \<open>MOD_GLOBAL\<close> is the value 0 and has no bit, so a set
  with \<open>MOD_GLOBAL\<close> has the same value as the set without it and the mask test never
  finds it.
\<close>

theorem modifier_global_counterexample:
  "mod_or [MOD_GLOBAL, MOD_LOCAL] = mod_or [MOD_LOCAL] \<and>
   \<not> mod_test (mod_or [MOD_GLOBAL, MOD_LOCAL]) MOD_GLOBAL \<and>
   modifier_val MOD_GLOBAL AND modifier_val MOD_LOCAL = modifier_val MOD_GLOBAL"
  by (simp add: mod_test_def)

text \<open>
  C7, amended. Each of the four modifiers local, shared, transfer and readonly is a
  distinct single bit, \<open>0x01\<close>, \<open>0x02\<close>, \<open>0x04\<close> and \<open>0x08\<close>: every modifier other than
  \<open>MOD_GLOBAL\<close> is \<open>2 ^ k\<close> for one \<open>k < 4\<close>, its presence in a set is tested independently
  of the others, two of them share a bit only when they are the same modifier, and two
  sets have the same value exactly when they agree on these four. \<open>MOD_GLOBAL\<close> is the
  value 0, the absence of all four, and not a bit.
\<close>

theorem modifier_bits:
  "(m \<noteq> MOD_GLOBAL \<longrightarrow> mod_test (mod_or ms) m = (m \<in> set ms)) \<and>
   (m \<noteq> MOD_GLOBAL \<and> m' \<noteq> MOD_GLOBAL \<longrightarrow>
      (modifier_val m AND modifier_val m' \<noteq> 0) = (m = m')) \<and>
   (mod_or ms = mod_or ms') = (set ms - {MOD_GLOBAL} = set ms' - {MOD_GLOBAL}) \<and>
   modifier_val MOD_GLOBAL = 0 \<and>
   modifier_val MOD_LOCAL = 0x01 \<and> modifier_val MOD_SHARED = 0x02 \<and>
   modifier_val MOD_TRANSFER = 0x04 \<and> modifier_val MOD_READONLY = 0x08 \<and>
   (m \<noteq> MOD_GLOBAL \<longrightarrow> (\<exists>k < 4. modifier_val m = 2 ^ k))"
proof (intro conjI impI)
  assume "m \<noteq> MOD_GLOBAL"
  then show "mod_test (mod_or ms) m = (m \<in> set ms)" by (rule mod_test_mod_or)
next
  assume "m \<noteq> MOD_GLOBAL"
  then show "\<exists>k < 4. modifier_val m = 2 ^ k"
    by (rule modifier_val_single_bit)
next
  assume "m \<noteq> MOD_GLOBAL \<and> m' \<noteq> MOD_GLOBAL"
  then show "(modifier_val m AND modifier_val m' \<noteq> 0) = (m = m')"
    using modifier_val_and [of m' m] by simp
next
  show "(mod_or ms = mod_or ms') = (set ms - {MOD_GLOBAL} = set ms' - {MOD_GLOBAL})"
    using mod_or_cong [of ms ms'] mod_or_inj [of ms ms'] by blast
next
  show "modifier_val MOD_GLOBAL = 0" by simp
qed simp_all

theorem modifier_bits_witness:
  "MOD_SHARED \<noteq> MOD_GLOBAL \<and> MOD_READONLY \<noteq> MOD_GLOBAL \<and>
   mod_test (mod_or [MOD_LOCAL, MOD_SHARED]) MOD_SHARED \<and>
   \<not> mod_test (mod_or [MOD_LOCAL, MOD_SHARED]) MOD_READONLY \<and>
   modifier_val MOD_SHARED AND modifier_val MOD_READONLY = 0 \<and>
   mod_or [MOD_LOCAL, MOD_SHARED] \<noteq> mod_or [MOD_SHARED] \<and>
   modifier_val MOD_SHARED = 2 \<and> modifier_val MOD_READONLY = 8 \<and>
   (\<exists>k < 4. modifier_val MOD_SHARED = 2 ^ k) \<and> (\<exists>k < 4. modifier_val MOD_READONLY = 2 ^ k)"
  using modifier_bits [of MOD_SHARED "[MOD_LOCAL, MOD_SHARED]" MOD_READONLY "[MOD_SHARED]"]
    modifier_bits [of MOD_READONLY "[MOD_LOCAL, MOD_SHARED]" MOD_SHARED "[MOD_SHARED]"]
  by simp

section \<open>Emission of a map-typed assignment\<close>

text \<open>
  C1. A map-typed assignment should become a single call to the imported
  \<^verbatim>\<open>env.map.set\<close> with no \<^verbatim>\<open>Store\<close>. For the assignment \<^verbatim>\<open>m[k] = v\<close>, whose left-hand side
  has the map identifier \<^verbatim>\<open>m\<close>, \<^verbatim>\<open>stmt_gen\<close> returns \<^verbatim>\<open>NULL\<close>: it emits nothing at all,
  neither a call nor a store, whatever the expression emitter does.
\<close>

theorem map_assign_emits_nothing:
  "stmt_gen G gen
     (STMT_ASSIGN None 0
        (EXP_ACCESS (Some (var_id ''m'' map_meta 4)) int32_meta
           (EXP_ID (Some (var_id ''m'' map_meta 4)) map_meta) (local_var ''k'' 5))
        (local_var ''v'' 6)) = Inr (None, gen)"
  by (simp add: stmt_gen_def stmt_gen_assign_def var_id_def map_meta_def is_map_meta_def)


section \<open>Tuple assignment\<close>

text \<open>
  C2. In a tuple assignment with more variables than values, every variable should get
  one assignment that consumes one value. For \<^verbatim>\<open>(a, b, c) = (x, (y, z))\<close> the code
  compares \<^verbatim>\<open>a\<close> with \<^verbatim>\<open>x\<close>, advances the variable index, assigns \<^verbatim>\<open>x\<close> to \<^verbatim>\<open>b\<close> and
  advances the index again; it then assigns \<^verbatim>\<open>y\<close> to \<^verbatim>\<open>c\<close> and reads a fourth variable,
  which does not exist.
\<close>

theorem tuple_assign_double_advance:
  "stmt_trans_assign id_ext fn_start
     (STMT_ASSIGN None 0
        (EXP_TUPLE None (tuple_meta 3) [local_var ''a'' 4, local_var ''b'' 5, local_var ''c'' 6])
        (EXP_TUPLE None (tuple_meta 3)
           [local_var ''x'' 7,
            EXP_TUPLE None (tuple_meta 2) [local_var ''y'' 8, local_var ''z'' 9]]))
   = Inl OUT_OF_RANGE"
  by (simp add: stmt_trans_assign_def id_ext_def fn_start_def bb_add_piggyback_def
      is_tuple_type_def tuple_meta_def local_var_def int32_meta_def array_get_def
      bb_add_stmt_def bb_modify_def stmt_new_assign_def numeral_2_eq_2)


text \<open>
  With a fourth variable to read, the same values give three assignments for four
  variables, and the first variable gets none.
\<close>

lemma tuple_assign_skips_first:
  "map_sum id (\<lambda>t. stmts (blocks t ! 0)) (stmt_trans_assign id_ext fn_start
     (STMT_ASSIGN None 0
        (EXP_TUPLE None (tuple_meta 4)
           [local_var ''a'' 4, local_var ''b'' 5, local_var ''c'' 6, local_var ''d'' 3])
        (EXP_TUPLE None (tuple_meta 3)
           [local_var ''x'' 7,
            EXP_TUPLE None (tuple_meta 2) [local_var ''y'' 8, local_var ''z'' 9]])))
   = Inr [STMT_ASSIGN None 0 (local_var ''b'' 5) (local_var ''x'' 7),
          STMT_ASSIGN None 0 (local_var ''c'' 6) (local_var ''y'' 8),
          STMT_ASSIGN None 0 (local_var ''d'' 3) (local_var ''z'' 9)]"
  by (simp add: stmt_trans_assign_def id_ext_def fn_start_def bb_add_piggyback_def
      is_tuple_type_def tuple_meta_def local_var_def int32_meta_def array_get_def
      bb_add_stmt_def bb_modify_def stmt_new_assign_def numeral_2_eq_2)


text \<open>
  C10. When the lowered left-hand side of an assignment is a tuple expression and the
  lowered right-hand side is not, lowering the assignment fails with the assertion
  \<^verbatim>\<open>is_tuple_exp(r_exp)\<close> and emits no assignment. The current block is a block of the store,
  as it is whenever \<^verbatim>\<open>stmt_trans\<close> calls \<^verbatim>\<open>stmt_trans_assign\<close>.
\<close>

theorem tuple_lhs_needs_tuple_rhs:
  assumes "is_tuple_exp (fst (exp_trans_to_lval X l_exp))"
    and "\<not> is_tuple_exp (fst (exp_trans_to_rval X r_exp))"
    and "bb t = Some b" and "b < length (blocks t)"
  shows "stmt_trans_assign X t (STMT_ASSIGN lb p l_exp r_exp) = Inl (ASSERT ''is_tuple_exp(r_exp)'')"
proof -
  obtain l l_pgs where l: "exp_trans_to_lval X l_exp = (l, l_pgs)" by (cases "exp_trans_to_lval X l_exp")
  obtain r r_pgs where r: "exp_trans_to_rval X r_exp = (r, r_pgs)" by (cases "exp_trans_to_rval X r_exp")
  from assms(1) l obtain i m var_exps where lt: "l = EXP_TUPLE i m var_exps"
    by (cases l) simp_all
  from assms(2) r have rt: "\<not> is_tuple_exp r" by simp
  show ?thesis
    using assms(3,4) l r lt rt
    by (cases r) (simp_all add: stmt_trans_assign_def bb_add_piggyback_def bb_modify_def)
qed


theorem tuple_lhs_needs_tuple_rhs_witness:
  "stmt_trans_assign id_ext fn_start
     (STMT_ASSIGN None 0
        (EXP_TUPLE None (tuple_meta 2) [local_var ''a'' 4, local_var ''b'' 5])
        (EXP_CALL None (tuple_meta 2) [])) = Inl (ASSERT ''is_tuple_exp(r_exp)'')"
  using tuple_lhs_needs_tuple_rhs [of id_ext
      "EXP_TUPLE None (tuple_meta 2) [local_var ''a'' 4, local_var ''b'' 5]"
      "EXP_CALL None (tuple_meta 2) []" fn_start 0 None 0]
  by (simp add: id_ext_def fn_start_def)

section \<open>The array loop\<close>

text \<open>
  C8. Lowering an array-loop statement reports the user error \<open>ERROR_NOT_SUPPORTED\<close> at the
  statement's position and changes nothing else: no statement, branch or block is added.
  In \<^verbatim>\<open>stmt_trans\<close> that is all that happens after the opening lines that every statement
  goes through, and all that happens to an unlabelled statement lowered in a current block.
\<close>

theorem array_loop_not_supported:
  "stmt_trans_loop X t (STMT_LOOP lb p LOOP_ARRAY init_stmt blk) =
     Inr (t\<lparr>errors := errors t @ [(ERROR_NOT_SUPPORTED, p)]\<rparr>) \<and>
   stmt_trans X t (STMT_LOOP lb p LOOP_ARRAY init_stmt blk) =
     and_then (stmt_trans_label t (STMT_LOOP lb p LOOP_ARRAY init_stmt blk))
       (\<lambda>t1. Inr (t1\<lparr>errors := errors t1 @ [(ERROR_NOT_SUPPORTED, p)]\<rparr>)) \<and>
   (lb = None \<and> bb t \<noteq> None \<longrightarrow>
      stmt_trans X t (STMT_LOOP lb p LOOP_ARRAY init_stmt blk) =
        Inr (t\<lparr>errors := errors t @ [(ERROR_NOT_SUPPORTED, p)]\<rparr>))"
  by (simp add: stmt_trans.simps stmt_trans_loop.simps stmt_trans_array_loop_def ERROR_def
      stmt_trans_label_def)

theorem array_loop_not_supported_witness:
  "stmt_trans id_ext fn_start (STMT_LOOP None 7 LOOP_ARRAY None []) =
     Inr (fn_start\<lparr>errors := [(ERROR_NOT_SUPPORTED, 7)]\<rparr>)"
  using array_loop_not_supported [of id_ext fn_start None 7 None "[]", THEN conjunct2,
      THEN conjunct2]
  by (simp add: fn_start_def)


section \<open>The return statement\<close>

text \<open>
  C6. Lowering a return statement, in the block \<open>b\<close> that is current after the opening
  lines of \<^verbatim>\<open>stmt_trans\<close>, lowers the argument if there is one, appends the return
  statement to \<open>b\<close>, adds an unconditional branch from \<open>b\<close> to the function's exit block,
  records \<open>b\<close> in the function and leaves no current block. Emission of the appended
  statement is a single \<open>BinaryenReturn\<close> of the emitted argument.
\<close>

theorem return_lowering:
  assumes "stmt_trans_label t (STMT_RETURN lb p arg_exp) = Inr t1"
    and "bb t1 = Some b" and "b < length (blocks t1)"
  shows "stmt_trans X t (STMT_RETURN lb p arg_exp) =
      Inr (t1\<lparr>blocks := (blocks t1)[b := (blocks t1 ! b)
                 \<lparr>pgbacks := pgbacks (blocks t1 ! b) @ arg_pgbacks X arg_exp,
                  stmts := stmts (blocks t1 ! b) @ [STMT_RETURN lb p (lowered_arg X arg_exp)],
                  brs := brs (blocks t1 ! b) @ [(None, exit_bb (fn t1))]\<rparr>],
              fn := (fn t1)\<lparr>bbs := (if b \<in> set (bbs (fn t1)) then bbs (fn t1)
                                     else bbs (fn t1) @ [b])\<rparr>,
              bb := None\<rparr>) \<and>
    stmt_gen G gen (STMT_RETURN lb p (lowered_arg X arg_exp)) =
      Inr (Some (BinaryenReturn (exp_gen G gen (lowered_arg X arg_exp))), gen)"
proof -
  have gen: "stmt_gen G gen (STMT_RETURN lb p (lowered_arg X arg_exp)) =
      Inr (Some (BinaryenReturn (exp_gen G gen (lowered_arg X arg_exp))), gen)"
    by (simp add: stmt_gen_def stmt_gen_return_def)
  have tr: "stmt_trans X t (STMT_RETURN lb p arg_exp) =
      stmt_trans_return X t1 (STMT_RETURN lb p arg_exp)"
    using assms(1) by (simp add: stmt_trans.simps)
  have "stmt_trans_return X t1 (STMT_RETURN lb p arg_exp) =
      Inr (t1\<lparr>blocks := (blocks t1)[b := (blocks t1 ! b)
                 \<lparr>pgbacks := pgbacks (blocks t1 ! b) @ arg_pgbacks X arg_exp,
                  stmts := stmts (blocks t1 ! b) @ [STMT_RETURN lb p (lowered_arg X arg_exp)],
                  brs := brs (blocks t1 ! b) @ [(None, exit_bb (fn t1))]\<rparr>],
              fn := (fn t1)\<lparr>bbs := (if b \<in> set (bbs (fn t1)) then bbs (fn t1)
                                     else bbs (fn t1) @ [b])\<rparr>,
              bb := None\<rparr>)"
    using assms(2,3)
    by (cases arg_exp)
      (auto simp: stmt_trans_return_def lowered_arg_def arg_pgbacks_def bb_add_piggyback_def
        bb_modify_def bb_add_stmt_def bb_add_branch_def fn_add_basic_blk_def
        split: prod.splits)
  with tr gen show ?thesis by simp
qed


theorem return_lowering_witness:
  "stmt_trans id_ext fn_start (STMT_RETURN None 3 (Some (EXP_LIT None int32_meta 0))) =
     Inr (fn_start
       \<lparr>blocks :=
          [\<lparr>stmts = [STMT_RETURN None 3 (Some (EXP_LIT None int32_meta 0))],
            brs = [(None, 1)], pgbacks = []\<rparr>,
           \<lparr>stmts = [], brs = [], pgbacks = []\<rparr>],
        fn := \<lparr>bbs = [0], entry_bb = 0, exit_bb = 1\<rparr>, bb := None\<rparr>) \<and>
   stmt_gen lit_gen gen_start (STMT_RETURN None 3 (Some (EXP_LIT None int32_meta 0))) =
     Inr (Some (BinaryenReturn (Some (BinaryenConst 0))), gen_start)"
  using return_lowering [of fn_start None 3 "Some (EXP_LIT None int32_meta 0)" fn_start 0
      id_ext lit_gen gen_start]
  by (simp add: fn_start_def stmt_trans_label_def lowered_arg_def arg_pgbacks_def id_ext_def
      lit_gen_def)

section \<open>Induction over the statements that lowering visits\<close>

lemma trans_induct:
  fixes PSTMT PIF PFOR PLOOP PSW PBLK :: "ast_stmt \<Rightarrow> bool"
    and PBLKS PELIFS PCASES :: "ast_stmt list \<Rightarrow> bool"
  assumes S: "\<And>s. (\<And>lb p c ib es eb. s = STMT_IF lb p c ib es eb \<Longrightarrow> PIF s) \<Longrightarrow>
        (\<And>lb p k i b. s = STMT_LOOP lb p k i b \<Longrightarrow> PLOOP s) \<Longrightarrow>
        (\<And>lb p cs d. s = STMT_SWITCH lb p cs d \<Longrightarrow> PSW s) \<Longrightarrow>
        (\<And>lb p b. s = STMT_BLK lb p b \<Longrightarrow> PBLK s) \<Longrightarrow> PSTMT s"
    and B0: "PBLKS []"
    and B1: "\<And>s ss. PSTMT s \<Longrightarrow> PBLKS ss \<Longrightarrow> PBLKS (s # ss)"
    and IF: "\<And>s. (\<And>lb p c blk es eb. s = STMT_IF lb p c (Some blk) es eb \<Longrightarrow> PBLKS blk) \<Longrightarrow>
        (\<And>lb p c ib es eb. s = STMT_IF lb p c ib es eb \<Longrightarrow> PELIFS es) \<Longrightarrow>
        (\<And>lb p c ib es blk. s = STMT_IF lb p c ib es (Some blk) \<Longrightarrow> PBLKS blk) \<Longrightarrow> PIF s"
    and E0: "PELIFS []"
    and E1: "\<And>e rest. (\<And>lb p c blk es eb. e = STMT_IF lb p c (Some blk) es eb \<Longrightarrow> PBLKS blk) \<Longrightarrow>
        (\<And>lb p c ib es eb. e = STMT_IF lb p c ib es eb \<Longrightarrow> PELIFS rest) \<Longrightarrow>
        PELIFS (e # rest)"
    and FOR: "\<And>s. (\<And>lb p k s0 b. s = STMT_LOOP lb p k (Some s0) b \<Longrightarrow> PSTMT s0) \<Longrightarrow>
        (\<And>lb p k i b. s = STMT_LOOP lb p k i b \<Longrightarrow> PBLKS b) \<Longrightarrow> PFOR s"
    and LOOP: "\<And>s. (\<And>lb p i b. s = STMT_LOOP lb p LOOP_FOR i b \<Longrightarrow> PFOR s) \<Longrightarrow> PLOOP s"
    and SW: "\<And>s. (\<And>lb p cs d. s = STMT_SWITCH lb p cs d \<Longrightarrow> PCASES cs) \<Longrightarrow> PSW s"
    and C0: "PCASES []"
    and C1: "\<And>c rest. (\<And>lb p v body. c = STMT_CASE lb p v body \<Longrightarrow> PBLKS body) \<Longrightarrow>
        (\<And>lb p v body. c = STMT_CASE lb p v body \<Longrightarrow> PCASES rest) \<Longrightarrow> PCASES (c # rest)"
    and BLK: "\<And>s. (\<And>lb p b. s = STMT_BLK lb p (Some b) \<Longrightarrow> PBLKS b) \<Longrightarrow> PBLK s"
  shows "PSTMT s1" and "PBLKS ss2" and "PIF s3" and "PELIFS ss4" and "PFOR s5"
    and "PLOOP s6" and "PSW s7" and "PCASES ss8" and "PBLK s9"
proof -
  fix X :: trans_ext and t :: trans_t and pb :: "nat option" and nb :: nat
  have "PSTMT s1" and "PBLKS ss2" and "PIF s3" and "PELIFS ss4" and "PFOR s5"
    and "PLOOP s6" and "PSW s7" and "PCASES ss8" and "PBLK s9"
  proof (induction X t s1 and X t ss2 and X t s3 and X pb nb t ss4 and X t s5 and X t s6
      and X t s7 and X pb nb t ss8 and X t s9
      rule: stmt_trans_blk_trans_stmt_trans_if_stmt_trans_elifs_stmt_trans_for_loop_stmt_trans_loop_stmt_trans_switch_stmt_trans_cases_stmt_trans_blk.induct)
    case (1 X t stmt)
    show ?case by (rule S) (use 1 in blast)+
  next
    case (2 X t)
    show ?case by (rule B0)
  next
    case (3 X t stmt rest)
    then show ?case by (intro B1)
  next
    case (4 X t stmt)
    show ?case
    proof (rule IF)
      fix lb p c blk es eb assume "stmt = STMT_IF lb p c (Some blk) es eb"
      then show "PBLKS blk"
        using 4(1) [OF _ HOL.refl prod.collapse prod.collapse prod.collapse HOL.refl] by simp
    next
      fix lb p c ib es eb assume "stmt = STMT_IF lb p c ib es eb"
      then show "PELIFS es"
        using 4(2) [OF _ HOL.refl prod.collapse prod.collapse prod.collapse] by simp
    next
      fix lb p c ib es blk assume "stmt = STMT_IF lb p c ib es (Some blk)"
      then show "PBLKS blk"
        using 4(3) [OF _ HOL.refl prod.collapse prod.collapse prod.collapse HOL.refl prod.collapse]
        by simp
    qed
  next
    case (5 X pb nb t)
    show ?case by (rule E0)
  next
    case (6 X pb nb t e rest)
    show ?case
    proof (rule E1)
      fix lb p c blk es eb assume "e = STMT_IF lb p c (Some blk) es eb"
      then show "PBLKS blk"
        using 6(1) [OF _ prod.collapse prod.collapse HOL.refl] by simp
    next
      fix lb p c ib es eb assume "e = STMT_IF lb p c ib es eb"
      then show "PELIFS rest"
        using 6(2) [OF _ prod.collapse prod.collapse] by simp
    qed
  next
    case (7 X t stmt)
    show ?case
    proof (rule FOR)
      fix lb p k s0 b assume "stmt = STMT_LOOP lb p k (Some s0) b"
      then show "PSTMT s0"
        using 7(1) [OF _ HOL.refl prod.collapse prod.collapse HOL.refl] by simp
    next
      fix lb p k i b assume "stmt = STMT_LOOP lb p k i b"
      then show "PBLKS b"
        using 7(2) [OF _ HOL.refl prod.collapse prod.collapse] by simp
    qed
  next
    case (8 X t stmt)
    show ?case by (rule LOOP) (use 8 in blast)
  next
    case (9 X t stmt)
    show ?case
    proof (rule SW)
      fix lb p cs d assume "stmt = STMT_SWITCH lb p cs d"
      then show "PCASES cs"
        using 9 [OF _ HOL.refl prod.collapse prod.collapse] by simp
    qed
  next
    case (10 X pb nb t)
    show ?case by (rule C0)
  next
    case (11 X pb nb t c rest)
    show ?case
    proof (rule C1)
      fix lb p v body assume "c = STMT_CASE lb p v body"
      then show "PBLKS body"
        using 11(1) [OF _ prod.collapse] by simp
    next
      fix lb p v body assume "c = STMT_CASE lb p v body"
      then show "PCASES rest"
        using 11(2) [OF _ prod.collapse] by simp
    qed
  next
    case (12 X t stmt)
    show ?case by (rule BLK) (use 12 in blast)
  qed
  then show "PSTMT s1" and "PBLKS ss2" and "PIF s3" and "PELIFS ss4" and "PFOR s5"
    and "PLOOP s6" and "PSW s7" and "PCASES ss8" and "PBLK s9" by -
qed

section \<open>Edits of the current block\<close>

lemma and_then_Inr: "(and_then m f = Inr y) = (\<exists>x. m = Inr x \<and> f x = Inr y)"
  by (cases m) simp_all

lemma bb_modify_Inr:
  "(bb_modify t b f = Inr t') =
     (\<exists>i. b = Some i \<and> i < length (blocks t) \<and>
          t' = t\<lparr>blocks := (blocks t)[i := f (blocks t ! i)]\<rparr>)"
  by (auto simp: bb_modify_def split: option.splits)

lemma bb_add_stmt_Inr:
  "(bb_add_stmt t b s = Inr t') =
     (\<exists>i. b = Some i \<and> i < length (blocks t) \<and>
          t' = t\<lparr>blocks := (blocks t)[i := (blocks t ! i)\<lparr>stmts := stmts (blocks t ! i) @ [s]\<rparr>]\<rparr>)"
  by (simp add: bb_add_stmt_def bb_modify_Inr)

lemma bb_add_branch_Inr:
  "(bb_add_branch t b c target = Inr t') =
     (\<exists>i y. b = Some i \<and> target = Some y \<and> i < length (blocks t) \<and>
          t' = t\<lparr>blocks := (blocks t)[i := (blocks t ! i)\<lparr>brs := brs (blocks t ! i) @ [(c, y)]\<rparr>]\<rparr>)"
  by (cases target) (auto simp: bb_add_branch_def bb_modify_Inr)

lemma bb_add_piggyback_Inr:
  "(bb_add_piggyback t b pgs = Inr t') =
     (if pgs = [] then t' = t
      else \<exists>i. b = Some i \<and> i < length (blocks t) \<and>
          t' = t\<lparr>blocks := (blocks t)[i := (blocks t ! i)\<lparr>pgbacks := pgbacks (blocks t ! i) @ pgs\<rparr>]\<rparr>)"
  by (auto simp: bb_add_piggyback_def bb_modify_Inr)

lemma set_add_bb: "set (add_bb i bs) = insert i (set bs)"
  by (auto simp: add_bb_def)

lemma fn_add_basic_blk_Inr:
  "(fn_add_basic_blk t b = Inr t') =
     (\<exists>i. b = Some i \<and> t' = t\<lparr>fn := (fn t)\<lparr>bbs := add_bb i (bbs (fn t))\<rparr>\<rparr>)"
  by (auto simp: fn_add_basic_blk_def add_bb_def split: option.splits)

lemma has_piggyback_Inr:
  "(has_piggyback t b = Inr h) =
     (\<exists>i. b = Some i \<and> i < length (blocks t) \<and> h = (pgbacks (blocks t ! i) \<noteq> []))"
  by (auto simp: has_piggyback_def split: option.splits)

lemmas prim_Inr = and_then_Inr bb_modify_Inr bb_add_stmt_Inr bb_add_branch_Inr
  bb_add_piggyback_Inr fn_add_basic_blk_Inr has_piggyback_Inr

lemma local_edit_refl: "local_edit N t t"
  by (simp add: local_edit_def)

lemma local_edit_trans:
  assumes "local_edit N t t1" and "local_edit N t1 t2"
  shows "local_edit N t t2"
proof -
  have "brs (blocks t2 ! b) = brs (blocks t ! b) \<and>
        set (stmts (blocks t2 ! b)) \<union> set (pgbacks (blocks t2 ! b)) \<subseteq>
          set (stmts (blocks t ! b)) \<union> set (pgbacks (blocks t ! b)) \<union> N \<and>
        (bb t \<noteq> Some b \<longrightarrow> blocks t2 ! b = blocks t ! b)"
    if b: "b < length (blocks t)" for b
  proof -
    from assms(1) b have 1: "brs (blocks t1 ! b) = brs (blocks t ! b)"
      "set (stmts (blocks t1 ! b)) \<union> set (pgbacks (blocks t1 ! b)) \<subseteq>
          set (stmts (blocks t ! b)) \<union> set (pgbacks (blocks t ! b)) \<union> N"
      "bb t \<noteq> Some b \<longrightarrow> blocks t1 ! b = blocks t ! b"
      by (simp_all add: local_edit_def)
    from assms b have 2: "brs (blocks t2 ! b) = brs (blocks t1 ! b)"
      "set (stmts (blocks t2 ! b)) \<union> set (pgbacks (blocks t2 ! b)) \<subseteq>
          set (stmts (blocks t1 ! b)) \<union> set (pgbacks (blocks t1 ! b)) \<union> N"
      "bb t \<noteq> Some b \<longrightarrow> blocks t2 ! b = blocks t1 ! b"
      by (simp_all add: local_edit_def)
    from 1 2 show ?thesis by auto
  qed
  with assms show ?thesis by (simp add: local_edit_def)
qed

lemma local_edit_is_lval: "local_edit N t (t\<lparr>is_lval := v\<rparr>)"
  by (simp add: local_edit_def)

lemma local_edit_update:
  assumes "bb t = Some i" and "i < length (blocks t)" and "brs blk = brs (blocks t ! i)"
    and "set (stmts blk) \<union> set (pgbacks blk) \<subseteq>
      set (stmts (blocks t ! i)) \<union> set (pgbacks (blocks t ! i)) \<union> N"
  shows "local_edit N t (t\<lparr>blocks := (blocks t)[i := blk]\<rparr>)"
proof -
  have "brs ((blocks t)[i := blk] ! b) = brs (blocks t ! b) \<and>
        set (stmts ((blocks t)[i := blk] ! b)) \<union> set (pgbacks ((blocks t)[i := blk] ! b)) \<subseteq>
          set (stmts (blocks t ! b)) \<union> set (pgbacks (blocks t ! b)) \<union> N \<and>
        (bb t \<noteq> Some b \<longrightarrow> (blocks t)[i := blk] ! b = blocks t ! b)"
    if "b < length (blocks t)" for b
  proof (cases "b = i")
    case True
    with assms show ?thesis by simp
  next
    case False
    then show ?thesis by auto
  qed
  then show ?thesis by (simp add: local_edit_def)
qed

lemma local_edit_add_stmt:
  "bb_add_stmt t (bb t) s = Inr t' \<Longrightarrow> s \<in> N \<Longrightarrow> local_edit N t t'"
  by (auto simp: bb_add_stmt_Inr intro!: local_edit_update)

lemma local_edit_add_piggyback:
  "bb_add_piggyback t (bb t) pgs = Inr t' \<Longrightarrow> set pgs \<subseteq> N \<Longrightarrow> local_edit N t t'"
  by (cases "pgs = []")
    (auto simp: bb_add_piggyback_Inr local_edit_refl intro!: local_edit_update)

lemma local_edit_flush:
  "bb_modify t (bb t) (\<lambda>blk. blk\<lparr>stmts := stmts blk @ pgbacks blk, pgbacks := []\<rparr>) = Inr t' \<Longrightarrow>
   local_edit N t t'"
  by (auto simp: bb_modify_Inr intro!: local_edit_update)

lemma local_edit_bb: "local_edit N t t' \<Longrightarrow> bb t' = bb t"
  by (simp add: local_edit_def)

lemma lowers_into_simple: "lowers_into X N \<Longrightarrow> simple_stmt s \<Longrightarrow> s \<in> N"
  by (simp add: lowers_into_def)

lemma lowers_into_pgs:
  assumes "lowers_into X N"
  shows "exp_trans X e = (e', pgs) \<Longrightarrow> set pgs \<subseteq> N"
    and "exp_trans_to_lval X e = (e', pgs) \<Longrightarrow> set pgs \<subseteq> N"
    and "exp_trans_to_rval X e = (e', pgs) \<Longrightarrow> set pgs \<subseteq> N"
proof -
  from assms have a: "set (snd (exp_trans X e)) \<subseteq> N"
    "set (snd (exp_trans_to_lval X e)) \<subseteq> N" "set (snd (exp_trans_to_rval X e)) \<subseteq> N"
    by (simp_all add: lowers_into_def)
  show "exp_trans X e = (e', pgs) \<Longrightarrow> set pgs \<subseteq> N" using a(1) by simp
  show "exp_trans_to_lval X e = (e', pgs) \<Longrightarrow> set pgs \<subseteq> N" using a(2) by simp
  show "exp_trans_to_rval X e = (e', pgs) \<Longrightarrow> set pgs \<subseteq> N" using a(3) by simp
qed

lemma new_assign_in: "lowers_into X N \<Longrightarrow> stmt_new_assign a b p \<in> N"
  by (simp add: lowers_into_def stmt_new_assign_def)

lemma assign_each_local:
  "assign_each X t p vars vals i = Inr t' \<Longrightarrow> lowers_into X N \<Longrightarrow> local_edit N t t'"
proof (induction vals arbitrary: t i)
  case Nil
  then show ?case by (simp add: local_edit_refl)
next
  case (Cons v vals)
  from Cons.prems obtain var t1 where 1: "bb_add_stmt t (bb t) (stmt_new_assign var v p) = Inr t1"
    and 2: "assign_each X t1 p vars vals (i + 1) = Inr t'"
    by (auto simp: and_then_Inr split: if_splits)
  from 1 Cons.prems(2) have "local_edit N t t1"
    by (blast intro: local_edit_add_stmt new_assign_in)
  moreover from 2 Cons.prems(2) have "local_edit N t1 t'" by (rule Cons.IH)
  ultimately show ?case by (rule local_edit_trans)
qed

lemma assign_elems_local:
  "assign_elems X t p vars v var_idx j n = Inr (t', k) \<Longrightarrow> lowers_into X N \<Longrightarrow>
   local_edit N t t'"
proof (induction n arbitrary: t var_idx j)
  case 0
  then show ?case by (simp add: local_edit_refl)
next
  case (Suc n)
  from Suc.prems obtain var el t1 where
    1: "bb_add_stmt t (bb t) (stmt_new_assign var el p) = Inr t1"
    and 2: "assign_elems X t1 p vars v (var_idx + 1) (j + 1) n = Inr (t', k)"
    by (auto simp: and_then_Inr split: if_splits)
  from 1 Suc.prems(2) have "local_edit N t t1"
    by (blast intro: local_edit_add_stmt new_assign_in)
  moreover from 2 Suc.prems(2) have "local_edit N t1 t'" by (rule Suc.IH)
  ultimately show ?case by (rule local_edit_trans)
qed

lemma assign_flat_local:
  "assign_flat X t p vars vals var_idx = Inr t' \<Longrightarrow> lowers_into X N \<Longrightarrow> local_edit N t t'"
proof (induction vals arbitrary: t var_idx)
  case Nil
  then show ?case by (simp add: local_edit_refl)
next
  case (Cons v vals)
  show ?case
  proof (cases "is_tuple_type (exp_meta v)")
    case True
    with Cons.prems obtain t1 k where
      1: "assign_elems X t p vars v var_idx 0 (nat (elem_cnt (exp_meta v))) = Inr (t1, k)"
      and 2: "assign_flat X t1 p vars vals k = Inr t'"
      by (auto simp: and_then_Inr)
    from 1 Cons.prems(2) have "local_edit N t t1" by (rule assign_elems_local)
    moreover from 2 Cons.prems(2) have "local_edit N t1 t'" by (rule Cons.IH)
    ultimately show ?thesis by (rule local_edit_trans)
  next
    case False
    with Cons.prems obtain var t1 where
      1: "bb_add_stmt t (bb t) (stmt_new_assign var v p) = Inr t1"
      and 2: "assign_flat X t1 p vars vals (var_idx + 2) = Inr t'"
      by (auto simp: and_then_Inr split: if_splits)
    from 1 Cons.prems(2) have "local_edit N t t1"
      by (blast intro: local_edit_add_stmt new_assign_in)
    moreover from 2 Cons.prems(2) have "local_edit N t1 t'" by (rule Cons.IH)
    ultimately show ?thesis by (rule local_edit_trans)
  qed
qed

lemma stmt_trans_assign_local:
  assumes "stmt_trans_assign X t s = Inr t'" and N: "lowers_into X N"
  shows "local_edit N t t'"
proof (cases s)
  case (STMT_ASSIGN lb p l0 r0)
  obtain l lp where l: "exp_trans_to_lval X l0 = (l, lp)"
    by (cases "exp_trans_to_lval X l0")
  obtain r rp where r: "exp_trans_to_rval X r0 = (r, rp)"
    by (cases "exp_trans_to_rval X r0")
  from assms obtain t1 t2 where 1: "bb_add_piggyback t (bb t) lp = Inr t1"
    and 2: "bb_add_piggyback t1 (bb t1) rp = Inr t2"
    and 3: "(case l of
               EXP_TUPLE _ _ var_exps \<Rightarrow>
                 (case r of
                    EXP_TUPLE _ _ val_exps \<Rightarrow>
                      if length var_exps = length val_exps
                      then assign_each X t2 p var_exps val_exps 0
                      else if \<not> length val_exps < length var_exps
                      then Inl (ASSERT ''array_size(var_exps) > array_size(val_exps)'')
                      else assign_flat X t2 p var_exps val_exps 0
                  | _ \<Rightarrow> Inl (ASSERT ''is_tuple_exp(r_exp)''))
             | _ \<Rightarrow> bb_add_stmt t2 (bb t2) (STMT_ASSIGN lb p l r)) = Inr t'"
    by (auto simp: stmt_trans_assign_def STMT_ASSIGN l r and_then_Inr)
  have in_N: "STMT_ASSIGN lb p l r \<in> N"
    using N by (simp add: lowers_into_def)
  have "local_edit N t2 t'"
  proof (cases l)
    case l_tuple: (EXP_TUPLE li lm var_exps)
    show ?thesis
    proof (cases r)
      case (EXP_TUPLE ri rm val_exps)
      with 3 l_tuple N show ?thesis
        by (auto split: if_splits dest: assign_each_local assign_flat_local)
    qed (use 3 l_tuple in simp_all)
  qed (use 3 in_N in \<open>auto dest: local_edit_add_stmt\<close>)
  moreover have "local_edit N t t1"
    using 1 lowers_into_pgs(2) [OF N l] by (rule local_edit_add_piggyback)
  moreover have "local_edit N t1 t2"
    using 2 lowers_into_pgs(3) [OF N r] by (rule local_edit_add_piggyback)
  ultimately show ?thesis
    by (blast intro: local_edit_trans)
qed (use assms in \<open>simp_all add: stmt_trans_assign_def\<close>)

lemma stmt_trans_exp_local:
  assumes "stmt_trans_exp X t s = Inr t'" and N: "lowers_into X N"
  shows "local_edit N t t'"
proof (cases s)
  case (STMT_EXP lb p e0)
  obtain e pgs where e: "exp_trans_to_lval X e0 = (e, pgs)"
    by (cases "exp_trans_to_lval X e0")
  define u where "u = (\<lambda>t1 :: trans_t. t1\<lparr>is_lval := False\<rparr>)"
  from assms obtain t1 where 1: "bb_add_piggyback t (bb t) pgs = Inr t1"
    and 2: "(if is_call_exp e then bb_add_stmt (u t1) (bb (u t1)) (STMT_EXP lb p e)
             else and_then (has_piggyback (u t1) (bb (u t1))) (\<lambda>h.
               if h then
                 bb_modify (u t1) (bb (u t1))
                   (\<lambda>blk. blk\<lparr>stmts := stmts blk @ pgbacks blk, pgbacks := []\<rparr>)
               else Inr (u t1))) = Inr t'"
    unfolding u_def
    by (auto simp: stmt_trans_exp_def STMT_EXP e and_then_Inr Let_def)
  have 3: "local_edit N t t1"
    using 1 lowers_into_pgs(2) [OF N e] by (rule local_edit_add_piggyback)
  have 4: "local_edit N t1 (u t1)"
    unfolding u_def by (rule local_edit_is_lval)
  have "STMT_EXP lb p e \<in> N"
    using N by (simp add: lowers_into_def)
  then have "local_edit N (u t1) t'"
    using 2 by (auto simp: and_then_Inr local_edit_refl split: if_splits
        intro: local_edit_add_stmt local_edit_flush)
  with 3 4 show ?thesis
    by (blast intro: local_edit_trans)
qed (use assms in \<open>simp_all add: stmt_trans_exp_def\<close>)

lemma stmt_trans_ddl_local:
  "stmt_trans_ddl X t s = Inr t' \<Longrightarrow> s \<in> N \<Longrightarrow> local_edit N t t'"
  by (auto simp: stmt_trans_ddl_def dest: local_edit_add_stmt)

section \<open>Runs\<close>

lemma lowers_into_UNIV: "lowers_into X UNIV"
  by (simp add: lowers_into_def)

subsection \<open>What a run preserves\<close>











subsection \<open>Fields that the block primitives leave alone\<close>

lemma bb_modify_fields:
  "bb_modify t b f = Inr t' \<Longrightarrow>
     cont_bb t' = cont_bb t \<and> break_bb t' = break_bb t \<and> bb t' = bb t \<and> fn t' = fn t \<and>
     errors t' = errors t \<and> length (blocks t') = length (blocks t)"
  by (auto simp: bb_modify_Inr)

lemma bb_add_stmt_fields:
  "bb_add_stmt t b s = Inr t' \<Longrightarrow>
     cont_bb t' = cont_bb t \<and> break_bb t' = break_bb t \<and> bb t' = bb t \<and> fn t' = fn t \<and>
     errors t' = errors t \<and> length (blocks t') = length (blocks t)"
  unfolding bb_add_stmt_def by (rule bb_modify_fields)

lemma bb_add_branch_fields:
  "bb_add_branch t b c target = Inr t' \<Longrightarrow>
     cont_bb t' = cont_bb t \<and> break_bb t' = break_bb t \<and> bb t' = bb t \<and> fn t' = fn t \<and>
     errors t' = errors t \<and> length (blocks t') = length (blocks t)"
  by (auto simp: bb_add_branch_Inr)

lemma bb_add_piggyback_fields:
  "bb_add_piggyback t b pgs = Inr t' \<Longrightarrow>
     cont_bb t' = cont_bb t \<and> break_bb t' = break_bb t \<and> bb t' = bb t \<and> fn t' = fn t \<and>
     errors t' = errors t \<and> length (blocks t') = length (blocks t)"
  by (auto simp: bb_add_piggyback_Inr split: if_splits)

lemma fn_add_basic_blk_fields:
  "fn_add_basic_blk t b = Inr t' \<Longrightarrow>
     cont_bb t' = cont_bb t \<and> break_bb t' = break_bb t \<and> bb t' = bb t \<and>
     errors t' = errors t \<and> blocks t' = blocks t \<and>
     entry_bb (fn t') = entry_bb (fn t) \<and> exit_bb (fn t') = exit_bb (fn t) \<and>
     set (bbs (fn t')) = set_option b \<union> set (bbs (fn t))"
  by (auto simp: fn_add_basic_blk_Inr set_add_bb)

lemmas prim_fields = bb_modify_fields bb_add_stmt_fields bb_add_branch_fields
  bb_add_piggyback_fields fn_add_basic_blk_fields

subsection \<open>Each primitive is a run\<close>





lemma run_new: "bb_new t = (b, t') \<Longrightarrow> run g N M P t t'"
  using run.new [of g N M P t] by simp




subsection \<open>The statements that do not recurse\<close>










subsection \<open>The continue and break targets\<close>

lemma evolved_refl: "evolved t t"
  by (simp add: evolved_def)

lemma evolved_trans: "evolved t t1 \<Longrightarrow> evolved t1 t2 \<Longrightarrow> evolved t t2"
  by (auto simp: evolved_def)

lemma evolvedI: "cont_bb t' = cont_bb t \<Longrightarrow> break_bb t' = break_bb t \<Longrightarrow> evolved t t'"
  by (simp add: evolved_def)

lemma local_edit_evolved: "local_edit N t t' \<Longrightarrow> evolved t t'"
  by (simp add: local_edit_def evolved_def)

lemma stmt_trans_return_evolved: "stmt_trans_return X t s = Inr t' \<Longrightarrow> evolved t t'"
  by (cases s)
    (clarsimp simp: stmt_trans_return_def and_then_Inr evolved_def split: prod.splits
      dest!: prim_fields)+

lemma stmt_trans_continue_evolved: "stmt_trans_continue X t s = Inr t' \<Longrightarrow> evolved t t'"
  by (clarsimp simp: stmt_trans_continue_def and_then_Inr evolved_def split: if_splits
      dest!: prim_fields)

lemma stmt_trans_break_evolved: "stmt_trans_break X t s = Inr t' \<Longrightarrow> evolved t t'"
  by (cases s)
    (clarsimp simp: stmt_trans_break_def and_then_Inr evolved_def bb_new_def
      split: prod.splits if_splits option.splits dest!: prim_fields)+

lemma stmt_trans_goto_evolved: "stmt_trans_goto X t s = Inr t' \<Longrightarrow> evolved t t'"
  by (cases s)
    (clarsimp simp: stmt_trans_goto_def and_then_Inr evolved_def split: if_splits
      dest!: prim_fields)+

lemma stmt_trans_array_loop_evolved: "stmt_trans_array_loop X t s = Inr t' \<Longrightarrow> evolved t t'"
  by (auto simp: stmt_trans_array_loop_def ERROR_def intro!: evolvedI)

lemma stmt_trans_label_evolved: "stmt_trans_label t s = Inr t' \<Longrightarrow> evolved t t'"
  by (clarsimp simp: stmt_trans_label_def and_then_Inr evolved_def bb_new_def
      split: if_splits dest!: prim_fields)

lemmas simple_evolved =
  stmt_trans_exp_local [OF _ lowers_into_UNIV, THEN local_edit_evolved]
  stmt_trans_assign_local [OF _ lowers_into_UNIV, THEN local_edit_evolved]
  stmt_trans_ddl_local [OF _ UNIV_I, THEN local_edit_evolved]
  stmt_trans_return_evolved stmt_trans_continue_evolved stmt_trans_break_evolved
  stmt_trans_goto_evolved stmt_trans_array_loop_evolved

text \<open>
  The arm of an if or else-if statement, and the end of a case: what they do to the
  continue and break targets, given what the statements inside do.
\<close>

lemma leave_fields:
  "bb_add_branch t b c target = Inr t1 \<Longrightarrow> fn_add_basic_blk t1 b' = Inr t2 \<Longrightarrow>
     cont_bb t2 = cont_bb t \<and> break_bb t2 = break_bb t \<and> bb t2 = bb t"
  by (simp add: bb_add_branch_fields fn_add_basic_blk_fields)


lemma and_thenE:
  assumes "and_then m f = Inr y"
  obtains x where "m = Inr x" and "f x = Inr y"
  using assms by (auto simp: and_then_Inr)

lemma close_loop_fields:
  "close_loop t c = Inr t' \<Longrightarrow> cont_bb t' = cont_bb t \<and> break_bb t' = break_bb t"
  by (auto simp: close_loop_def and_then_Inr bb_add_branch_fields fn_add_basic_blk_fields
      split: if_splits)

lemma next_case_evolved: "next_case t nb rest = Inr t' \<Longrightarrow> evolved t t'"
  by (auto simp: next_case_def and_then_Inr bb_add_branch_fields fn_add_basic_blk_fields
      bb_new_def evolved_def split: if_splits)

lemma evolved_all:
  "\<forall>t t'. stmt_trans X t s1 = Inr t' \<longrightarrow> evolved t t'"
  "\<forall>t t'. blk_trans X t ss2 = Inr t' \<longrightarrow> evolved t t'"
  "\<forall>t t'. stmt_trans_if X t s3 = Inr t' \<longrightarrow> evolved t t'"
  "\<forall>pb nb t t'. stmt_trans_elifs X pb nb t ss4 = Inr t' \<longrightarrow> evolved t t'"
  "\<forall>t t'. stmt_trans_for_loop X t s5 = Inr t' \<longrightarrow> cont_bb t' = None \<and> break_bb t' = None"
  "\<forall>t t'. stmt_trans_loop X t s6 = Inr t' \<longrightarrow> evolved t t'"
  "\<forall>t t'. stmt_trans_switch X t s7 = Inr t' \<longrightarrow> cont_bb t' = None \<and> break_bb t' = None"
  "\<forall>pb nb t t'. stmt_trans_cases X pb nb t ss8 = Inr t' \<longrightarrow> evolved t t'"
  "\<forall>t t'. stmt_trans_blk X t s9 = Inr t' \<longrightarrow> evolved t t'"
proof (induction s1 and ss2 and s3 and ss4 and s5 and s6 and s7 and ss8 and s9 rule: trans_induct)
  case (1 s)
  have sw: "\<And>lb p cs d t t'. s = STMT_SWITCH lb p cs d \<Longrightarrow>
      stmt_trans_switch X t s = Inr t' \<Longrightarrow> evolved t t'"
    using 1(3) by (simp add: evolved_def)
  show ?case
  proof (intro allI impI)
    fix t t' assume "stmt_trans X t s = Inr t'"
    then obtain t1 where l: "stmt_trans_label t s = Inr t1"
      and d: "(case s of
         STMT_NULL _ _ \<Rightarrow> Inr t1
       | STMT_EXP _ _ _ \<Rightarrow> stmt_trans_exp X t1 s
       | STMT_ASSIGN _ _ _ _ \<Rightarrow> stmt_trans_assign X t1 s
       | STMT_IF _ _ _ _ _ _ \<Rightarrow> stmt_trans_if X t1 s
       | STMT_LOOP _ _ _ _ _ \<Rightarrow> stmt_trans_loop X t1 s
       | STMT_SWITCH _ _ _ _ \<Rightarrow> stmt_trans_switch X t1 s
       | STMT_CASE _ _ _ _ \<Rightarrow> Inr t1
       | STMT_RETURN _ _ _ \<Rightarrow> stmt_trans_return X t1 s
       | STMT_CONTINUE _ _ \<Rightarrow> stmt_trans_continue X t1 s
       | STMT_BREAK _ _ _ \<Rightarrow> stmt_trans_break X t1 s
       | STMT_GOTO _ _ _ \<Rightarrow> stmt_trans_goto X t1 s
       | STMT_DDL _ _ \<Rightarrow> stmt_trans_ddl X t1 s
       | STMT_BLK _ _ _ \<Rightarrow> stmt_trans_blk X t1 s) = Inr t'"
      by (auto simp: stmt_trans.simps and_then_Inr)
    have "evolved t1 t'"
      using d 1(1,2,4) sw by (cases s) (auto simp: evolved_refl dest: simple_evolved)
    with l show "evolved t t'"
      by (blast intro: evolved_trans dest: stmt_trans_label_evolved)
  qed
next
  case 2
  show ?case by (simp add: evolved_refl)
next
  case (3 s ss)
  then show ?case by (auto simp: and_then_Inr) (blast intro: evolved_trans)
next
  case (4 s)
  show ?case
  proof (cases s)
    case (STMT_IF lb p c ib es eb)
    have ib: "\<And>blk t t'. ib = Some blk \<Longrightarrow> blk_trans X t blk = Inr t' \<Longrightarrow> evolved t t'"
      using 4(1) STMT_IF by blast
    have es: "\<And>pb nb t t'. stmt_trans_elifs X pb nb t es = Inr t' \<Longrightarrow> evolved t t'"
      using 4(2) STMT_IF by blast
    have eb: "\<And>blk t t'. eb = Some blk \<Longrightarrow> blk_trans X t blk = Inr t' \<Longrightarrow> evolved t t'"
      using 4(3) STMT_IF by blast
    obtain c' pgs where c: "exp_trans X c = (c', pgs)"
      by (cases "exp_trans X c")
    show ?thesis
      using 4 unfolding STMT_IF
      by (cases ib; cases eb;
          clarsimp simp: stmt_trans_if.simps and_then_Inr bb_new_def Let_def c
            dest!: prim_fields es;
          fastforce simp: evolved_def)
  qed (simp_all add: stmt_trans_if.simps)
next
  case 5
  then show ?case by (simp add: evolved_refl)
next
  case (6 e rest)
  show ?case
  proof (cases e)
    case (STMT_IF lb p c ib es eb)
    have ib: "\<And>blk t t'. ib = Some blk \<Longrightarrow> blk_trans X t blk = Inr t' \<Longrightarrow> evolved t t'"
      using 6(1) STMT_IF by blast
    have rest: "\<And>pb nb t t'. stmt_trans_elifs X pb nb t rest = Inr t' \<Longrightarrow> evolved t t'"
      using 6(2) STMT_IF by blast
    obtain c' pgs where c: "exp_trans X c = (c', pgs)"
      by (cases "exp_trans X c")
    show ?thesis
      using 6 unfolding STMT_IF
      by (cases ib;
          clarsimp simp: and_then_Inr bb_new_def c dest!: prim_fields rest;
          fastforce simp: evolved_def)
  qed simp_all
next
  case (7 s)
  show ?case
  proof (cases s)
    case (STMT_LOOP lb p k i b)
    show ?thesis
    proof (intro allI impI)
      fix t t' assume "stmt_trans_for_loop X t s = Inr t'"
      then obtain u t5 where "close_loop (u\<lparr>cont_bb := None, break_bb := None\<rparr>) (length (blocks t)) = Inr t5"
        and "t' = t5\<lparr>bb := Some (Suc (length (blocks t)))\<rparr>"
        unfolding STMT_LOOP
        by (simp only: stmt_trans_for_loop.simps ast_stmt.case Let_def bb_new_def prod.case
            close_loop_def) (elim and_thenE, simp)
      then show "cont_bb t' = None \<and> break_bb t' = None"
        by (auto dest: close_loop_fields)
    qed
  qed (simp_all add: stmt_trans_for_loop.simps)
next
  case (8 s)
  then show ?case
    by (cases s)
      (auto simp: stmt_trans_loop.simps evolved_def split: loop_kind_t.splits
        dest: stmt_trans_array_loop_evolved)
next
  case (9 s)
  show ?case
  proof (cases s)
    case (STMT_SWITCH lb p cs d)
    have cs: "\<And>pb nb t t'. stmt_trans_cases X pb nb t cs = Inr t' \<Longrightarrow> evolved t t'"
      using 9 STMT_SWITCH by blast
    show ?thesis
    proof (intro allI impI)
      fix t t' assume "stmt_trans_switch X t s = Inr t'"
      then obtain u t1 t2 where 1: "stmt_trans_cases X (bb t) (length (blocks t)) u cs = Inr t1"
        and u: "cont_bb u = None"
        and 2: "(if \<not> d then bb_add_branch t1 (bb t) None (Some (length (blocks t)))
                 else Inr t1) = Inr t2"
        and t': "t' = t2\<lparr>break_bb := None, bb := Some (length (blocks t))\<rparr>"
        unfolding STMT_SWITCH
        by (simp only: stmt_trans_switch.simps ast_stmt.case Let_def bb_new_def prod.case)
          (elim and_thenE, simp)
      from 2 have "cont_bb t2 = cont_bb t1"
        by (cases d) (simp_all add: bb_add_branch_fields)
      moreover from cs [OF 1] u have "cont_bb t1 = None"
        by (auto simp: evolved_def)
      ultimately show "cont_bb t' = None \<and> break_bb t' = None"
        using t' by simp
    qed
  qed (simp_all add: stmt_trans_switch.simps)
next
  case 10
  then show ?case by (simp add: evolved_refl)
next
  case (11 c rest)
  show ?case
  proof (cases c)
    case (STMT_CASE lb p v body)
    have body: "\<And>t t'. blk_trans X t body = Inr t' \<Longrightarrow> evolved t t'"
      using 11(1) STMT_CASE by blast
    have rest: "\<And>pb nb t t'. stmt_trans_cases X pb nb t rest = Inr t' \<Longrightarrow> evolved t t'"
      using 11(2) STMT_CASE by blast
    obtain v' pgs where v: "case_value X v = (v', pgs)"
      by (cases "case_value X v")
    show ?thesis
    proof (intro allI impI)
      fix pb nb t t' assume "stmt_trans_cases X pb nb t (c # rest) = Inr t'"
      then obtain t1 t2 t3 t4 where 1: "bb_add_branch t pb v' (bb t) = Inr t1"
        and 2: "bb_add_piggyback t1 (bb t1) pgs = Inr t2"
        and 3: "blk_trans X t2 body = Inr t3"
        and 4: "next_case t3 nb rest = Inr t4"
        and 5: "stmt_trans_cases X pb nb t4 rest = Inr t'"
        unfolding STMT_CASE
        by (simp only: stmt_trans_cases.simps ast_stmt.case v [unfolded case_value_def]
            prod.case next_case_def) (elim and_thenE, blast)
      have "evolved t t2"
        using 1 2 by (simp add: evolved_def bb_add_branch_fields bb_add_piggyback_fields)
      moreover have "evolved t2 t3" using 3 by (rule body)
      moreover have "evolved t3 t4" using 4 by (rule next_case_evolved)
      moreover have "evolved t4 t'" using 5 by (rule rest)
      ultimately show "evolved t t'"
        by (blast intro: evolved_trans)
    qed
  qed simp_all
next
  case (12 s)
  then show ?case
    by (cases s) (auto simp: stmt_trans_blk.simps evolved_refl split: option.splits)
qed

section \<open>Continue and break after a nested loop or switch\<close>




lemma blk_trans_evolved: "blk_trans X t ss = Inr t' \<Longrightarrow> evolved t t'"
  using evolved_all(2) by blast

lemma blk_trans_keeps_cleared:
  assumes "blk_trans X t ss = Inr t'" and "cont_bb t = None" and "break_bb t = None"
  shows "cont_bb t' = None \<and> break_bb t' = None"
  using blk_trans_evolved [OF assms(1)] assms(2,3) by (auto simp: evolved_def)



section \<open>Every lowering function is a run\<close>







lemma ready_pending: "ready M P t \<Longrightarrow> pending t \<subseteq> P"
  by (simp add: ready_def)







lemma evolved_fields:
  "cont_bb t' = cont_bb t \<and> break_bb t' = break_bb t \<and> rest \<Longrightarrow> evolved t t'"
  by (simp add: evolved_def)











































section \<open>The scope of the cleared targets\<close>







lemma arm_cases:
  obtains "blk = None" "\<And>t. arm X blk t = Inr t" | b where "blk = Some b" "\<And>t. arm X blk t = blk_trans X t b"
  by (cases blk) (simp_all add: arm_def)























lemma reaches_free:
  "reaches X t s u j \<Longrightarrow> free_jump k j \<Longrightarrow> free_jump k s"
  "reaches_blk X t ss u j \<Longrightarrow> free_jump k j \<Longrightarrow> free_jump_blk k ss"
  "reaches_elifs X pb nb t es u j \<Longrightarrow> free_jump k j \<Longrightarrow> free_jump_elifs k es"
  by (induction rule: reaches_reaches_blk_reaches_elifs.inducts) simp_all




section \<open>The lowering functions as runs, and the frame of a block\<close>

lemma lowering_weaken:
  "lowering g N M f L G \<Longrightarrow> L' \<subseteq> L \<Longrightarrow> G \<subseteq> G' \<Longrightarrow> lowering g N M f L' G'"
  unfolding lowering_def by blast








lemma bb_modify_other:
  "bb_modify t (Some i) f = Inr t' \<Longrightarrow> j \<noteq> i \<Longrightarrow> blocks t' ! j = blocks t ! j"
  by (auto simp: bb_modify_Inr)







section \<open>Switch lowering\<close>






section \<open>Runs of the lowering of a function\<close>




section \<open>Reachable blocks\<close>





lemma reached_mono: "reached t S \<Longrightarrow> S' \<subseteq> S \<Longrightarrow> reached t S'"
  by (auto simp: reached_def)


lemma reached_option: "reached t (set_option (Some b)) = reachable t b"
  by (simp add: reached_def)






























section \<open>The graph of a lowered function\<close>







end
